theory Spec2Isabelle
  imports Complex_Main "HOL-Library.Monad_Syntax"
begin

section \<open>Machine arithmetic of pow.cpp\<close>

text \<open>
  Signed C++ integers are modelled by \<open>int\<close>. An operation whose C++ behaviour is
  undefined or that aborts the program (signed overflow, a division or remainder by zero,
  a conversion out of range, a failed \<open>assert\<close>, a null dereference, the
  \<open>uint_error\<close> of a 256-bit division by zero) yields \<open>None\<close>; every function
  that can reach such an operation returns an \<open>option\<close>.
\<close>

definition int64 :: "int \<Rightarrow> int option" where
  "int64 x = (if - (2 ^ 63) \<le> x \<and> x < 2 ^ 63 then Some x else None)"

definition int32 :: "int \<Rightarrow> int option" where
  "int32 x = (if - (2 ^ 31) \<le> x \<and> x < 2 ^ 31 then Some x else None)"

text \<open>The narrowing conversion of an \<open>int64_t\<close> to \<open>int\<close>: two's complement wrap-around.\<close>

definition to_int32 :: "int \<Rightarrow> int" where
  "to_int32 x = (x + 2 ^ 31) mod 2 ^ 32 - 2 ^ 31"

text \<open>C++ \<open>/\<close> and \<open>%\<close> truncate towards zero.\<close>

definition c_div :: "int \<Rightarrow> int \<Rightarrow> int" where
  "c_div a b = sgn a * sgn b * (\<bar>a\<bar> div \<bar>b\<bar>)"

definition c_rem :: "int \<Rightarrow> int \<Rightarrow> int" where
  "c_rem a b = sgn a * (\<bar>a\<bar> mod \<bar>b\<bar>)"

text \<open>
  On \<open>int64_t\<close> operands both are undefined for a zero divisor and for
  \<open>INT64_MIN\<close> by \<open>-1\<close>.
\<close>

definition div64 :: "int \<Rightarrow> int \<Rightarrow> int option" where
  "div64 a b = (if b = 0 \<or> (a = - (2 ^ 63) \<and> b = - 1) then None else Some (c_div a b))"

definition rem64 :: "int \<Rightarrow> int \<Rightarrow> int option" where
  "rem64 a b = (if b = 0 \<or> (a = - (2 ^ 63) \<and> b = - 1) then None else Some (c_rem a b))"

section \<open>Consensus parameters and the chain index\<close>

text \<open>
  Modelled from the spec: \<open>Consensus::Params\<close> (consensus/params.h is not among the
  sources). The spec's ConsensusParams: the proof-of-work limit (a 256-bit value), the
  target spacing and target timespan in seconds (\<open>int64_t\<close>), the flags "allow
  minimum difficulty blocks" and "no retargeting".
\<close>

record Params =
  powLimit :: nat
  nPowTargetSpacing :: int
  nPowTargetTimespan :: int
  fPowAllowMinDifficultyBlocks :: bool
  fPowNoRetargeting :: bool

text \<open>
  Modelled from the spec: \<open>Params::DifficultyAdjustmentInterval()\<close>, "a derived
  adjustment-interval length = timespan / spacing".
\<close>

definition DifficultyAdjustmentInterval :: "Params \<Rightarrow> int option" where
  "DifficultyAdjustmentInterval params =
     div64 (nPowTargetTimespan params) (nPowTargetSpacing params)"

text \<open>
  Modelled from the spec: \<open>CBlockIndex\<close> and \<open>CBlockHeader\<close> (chain.h and
  primitives/block.h are not among the sources). The spec's BlockView: height,
  timestamp, compact difficulty field, median-time-past and the immediate predecessor
  (absent for genesis); a header carries the candidate's timestamp.
\<close>

datatype CBlockIndex =
  CBlockIndex (nHeight: int) (nTime: int) (nBits: nat) (nMedianTimePast: int)
    (pprev: "CBlockIndex option")

datatype CBlockHeader =
  CBlockHeader (header_nTime: int)

text \<open>
  Modelled from the spec: \<open>CBlockIndex::GetAncestor\<close>, "a way to fetch the ancestor
  at a given height": no block for a height that is negative or above the block's own.
\<close>

fun GetAncestor :: "CBlockIndex \<Rightarrow> int \<Rightarrow> CBlockIndex option" where
  "GetAncestor (CBlockIndex h t b m p) height =
     (if height > h \<or> height < 0 then None
      else if h = height then Some (CBlockIndex h t b m p)
      else (case p of None \<Rightarrow> None | Some q \<Rightarrow> GetAncestor q height))"

section \<open>The 256-bit target and its compact form\<close>

text \<open>
  Modelled from the spec: \<open>arith_uint256\<close> (arith_uint256.h is not among the sources),
  the spec's CompactTarget: "a 256-bit unsigned magnitude" with the compact encoding
  "following the standard nBits convention" (the top byte is the size in bytes, bit 23 the
  sign, the low 23 bits the mantissa; encoding floors the mantissa). A value is a
  \<open>nat\<close> below \<open>2 ^ 256\<close> and arithmetic is modulo \<open>2 ^ 256\<close>; a compact value is
  a \<open>nat\<close> below \<open>2 ^ 32\<close>.
\<close>

fun bits :: "nat \<Rightarrow> nat" where
  "bits n = (if n = 0 then 0 else Suc (bits (n div 2)))"

declare bits.simps [simp del]

text \<open>\<open>SetCompact\<close>: the decoded value, the negative flag and the overflow flag.\<close>

definition SetCompact :: "nat \<Rightarrow> nat \<times> bool \<times> bool" where
  "SetCompact nCompact =
     (let nSize = nCompact div 2 ^ 24;
          nWord = (if nSize \<le> 3 then (nCompact mod 2 ^ 23) div 2 ^ (8 * (3 - nSize))
                   else nCompact mod 2 ^ 23);
          v = (if nSize \<le> 3 then nWord else (nWord * 2 ^ (8 * (nSize - 3))) mod 2 ^ 256);
          fNegative = (nWord \<noteq> 0 \<and> (nCompact div 2 ^ 23) mod 2 = 1);
          fOverflow = (nWord \<noteq> 0 \<and> (nSize > 34 \<or> (nWord > 255 \<and> nSize > 33)
                         \<or> (nWord > 65535 \<and> nSize > 32)))
      in (v, fNegative, fOverflow))"

text \<open>\<open>GetCompact\<close> of a non-negative value.\<close>

definition GetCompact :: "nat \<Rightarrow> nat" where
  "GetCompact v =
     (let nSize = (bits v + 7) div 8;
          nCompact = (if nSize \<le> 3 then (v * 2 ^ (8 * (3 - nSize))) mod 2 ^ 32
                      else (v div 2 ^ (8 * (nSize - 3))) mod 2 ^ 32)
      in if (nCompact div 2 ^ 23) mod 2 = 1
         then nCompact div 2 ^ 8 + (nSize + 1) * 2 ^ 24
         else nCompact + nSize * 2 ^ 24)"

text \<open>
  \<open>operator*=\<close> multiplies by a 32-bit unsigned factor, to which the \<open>int64_t\<close>
  argument is converted; \<open>operator/=\<close> divides by a 256-bit value built from the
  argument converted to \<open>uint64_t\<close>, and throws on a zero divisor.
\<close>

definition mul_u32 :: "nat \<Rightarrow> int \<Rightarrow> nat" where
  "mul_u32 a b = (a * nat (b mod 2 ^ 32)) mod 2 ^ 256"

definition div_u64 :: "nat \<Rightarrow> int \<Rightarrow> nat option" where
  "div_u64 a b = (let d = nat (b mod 2 ^ 64) in if d = 0 then None else Some (a div d))"

text \<open>
  The three-byte window that \<open>GetCompact\<close> cuts out of a value, and the number of low
  bits that encoding and decoding again clears: the encoding keeps the bytes from the
  top one down to a mantissa of 16 to 23 bits.
\<close>

definition window :: "nat \<Rightarrow> nat" where
  "window v = (let n = (bits v + 7) div 8
               in if n \<le> 3 then v * 2 ^ (8 * (3 - n)) else v div 2 ^ (8 * (n - 3)))"

definition compact_shift :: "nat \<Rightarrow> nat" where
  "compact_shift v = 8 * (bits v div 8 - 2)"

section \<open>Double precision\<close>

text \<open>
  A finite \<open>double\<close> is modelled by the real number it denotes, and every
  floating-point operation by the exact operation followed by \<open>fl\<close>, the IEEE 754
  binary64 rounding to nearest, ties to even (53 significant bits, least quantum
  \<open>2 ^ -1074\<close>). The values of pow.cpp stay far below the overflow threshold, and the sign
  of zero is not observable in its computations.
\<close>

definition pow2 :: "int \<Rightarrow> real" where
  "pow2 e = (if 0 \<le> e then 2 ^ nat e else 1 / 2 ^ nat (- e))"

definition rne :: "real \<Rightarrow> int" where
  "rne x = (let n = \<lfloor>x\<rfloor>; r = x - of_int n
            in if r < 1 / 2 then n else if 1 / 2 < r then n + 1
               else if even n then n else n + 1)"

text \<open>\<open>ilog2 x\<close> is the \<open>e\<close> with \<open>2 ^ e \<le> x < 2 ^ (e + 1)\<close>, for a positive \<open>x\<close>.\<close>

definition ilog2 :: "real \<Rightarrow> int" where
  "ilog2 x = (if 1 \<le> x then int (bits (nat \<lfloor>x\<rfloor>)) - 1
              else - int (bits (nat (\<lceil>1 / x\<rceil> - 1))))"

text \<open>The spacing of the doubles around \<open>x\<close>: the unit in the last place.\<close>

definition quantum :: "real \<Rightarrow> real" where
  "quantum x = pow2 (max (ilog2 \<bar>x\<bar>) (- 1022) - 52)"

definition fl :: "real \<Rightarrow> real" where
  "fl x = (if x = 0 then 0 else quantum x * of_int (rne (x / quantum x)))"

text \<open>The conversion of a \<open>double\<close> to \<open>int64_t\<close> truncates towards zero.\<close>

definition double_to_int64 :: "real \<Rightarrow> int option" where
  "double_to_int64 x = int64 (if 0 \<le> x then \<lfloor>x\<rfloor> else \<lceil>x\<rceil>)"

section \<open>pow.cpp\<close>

definition NEW_RULES_ACTIVATION_HEIGHT :: int where
  "NEW_RULES_ACTIVATION_HEIGHT = 175000"

definition TRANSITION_WINDOW :: int where
  "TRANSITION_WINDOW = 2000"

definition GetTransitionFactor :: "int \<Rightarrow> real" where
  "GetTransitionFactor height =
     (if height < NEW_RULES_ACTIVATION_HEIGHT then 0
      else if height \<ge> NEW_RULES_ACTIVATION_HEIGHT + TRANSITION_WINDOW then 1
      else fl (of_int (height - NEW_RULES_ACTIVATION_HEIGHT) / of_int TRANSITION_WINDOW))"

text \<open>
  The statement \<open>x = x + (target - x) * transitionFactor\<close> on an \<open>int64_t x\<close>: the
  difference is converted to \<open>double\<close> and multiplied, \<open>x\<close> is converted and added,
  and the sum is converted back.
\<close>

definition interpolate :: "int \<Rightarrow> int \<Rightarrow> real \<Rightarrow> int option" where
  "interpolate x target transitionFactor = do {
     d \<leftarrow> int64 (target - x);
     double_to_int64 (fl (fl (of_int x) + fl (fl (of_int d) * transitionFactor)))
   }"

definition GetDifficultyLimits :: "int \<Rightarrow> real \<Rightarrow> Params \<Rightarrow> (int \<times> int) option" where
  "GetDifficultyLimits height transitionFactor params = do {
     let nMinTimespan = c_div (nPowTargetTimespan params) 4;
     nMaxTimespan \<leftarrow> int64 (nPowTargetTimespan params * 4);
     if height < NEW_RULES_ACTIVATION_HEIGHT then Some (nMinTimespan, nMaxTimespan)
     else do {
       let targetMin =
         (if height > NEW_RULES_ACTIVATION_HEIGHT + 10000 then c_div (nPowTargetTimespan params) 4
          else if height > NEW_RULES_ACTIVATION_HEIGHT + 5000 then c_div (nPowTargetTimespan params) 8
          else c_div (nPowTargetTimespan params) 16);
       targetMax \<leftarrow> int64 (nPowTargetTimespan params * 4);
       nMinTimespan' \<leftarrow> interpolate nMinTimespan targetMin transitionFactor;
       nMaxTimespan' \<leftarrow> interpolate nMaxTimespan targetMax transitionFactor;
       Some (nMinTimespan', nMaxTimespan')
     }
   }"

text \<open>
  The clamp to the proof-of-work limit and the round trip through the compact form that
  \<open>PermittedDifficultyTransition\<close> applies to both of its bounds.
\<close>

definition scaled_bound :: "Params \<Rightarrow> nat \<Rightarrow> int \<Rightarrow> nat option" where
  "scaled_bound params nbits nTimespan = do {
     t \<leftarrow> div_u64 (mul_u32 (fst (SetCompact nbits)) nTimespan) (nPowTargetTimespan params);
     let t' = (if t > powLimit params then powLimit params else t);
     Some (fst (SetCompact (GetCompact t')))
   }"

definition PermittedDifficultyTransition :: "Params \<Rightarrow> int \<Rightarrow> nat \<Rightarrow> nat \<Rightarrow> bool option" where
  "PermittedDifficultyTransition params height old_nbits new_nbits =
     (if fPowAllowMinDifficultyBlocks params then Some True
      else do {
        interval \<leftarrow> DifficultyAdjustmentInterval params;
        r \<leftarrow> rem64 height interval;
        if r = 0 then do {
          let transitionFactor = GetTransitionFactor (to_int32 height);
          (nMinTimespan, nMaxTimespan) \<leftarrow>
            GetDifficultyLimits (to_int32 height) transitionFactor params;
          let observed_new_target = fst (SetCompact new_nbits);
          maximum_new_target \<leftarrow> scaled_bound params old_nbits nMaxTimespan;
          if maximum_new_target < observed_new_target then Some False
          else do {
            minimum_new_target \<leftarrow> scaled_bound params old_nbits nMinTimespan;
            if minimum_new_target > observed_new_target then Some False else Some True
          }
        }
        else if old_nbits \<noteq> new_nbits then Some False
        else Some True
      })"

text \<open>
  The value \<open>bnNew\<close> of \<open>CalculateNextWorkRequired\<close> before it is encoded, on
  the retargeting path.
\<close>

definition next_target :: "CBlockIndex \<Rightarrow> int \<Rightarrow> Params \<Rightarrow> nat option" where
  "next_target pindexLast nFirstBlockTime params = do {
     height \<leftarrow> int32 (nHeight pindexLast + 1);
     let transitionFactor = GetTransitionFactor height;
     (nMinTimespan, nMaxTimespan) \<leftarrow> GetDifficultyLimits height transitionFactor params;
     nActualTimespan \<leftarrow> int64 (nTime pindexLast - nFirstBlockTime);
     let nModulatedTimespan =
       (if nActualTimespan < nMinTimespan then nMinTimespan
        else if nActualTimespan > nMaxTimespan then nMaxTimespan
        else nActualTimespan);
     let bnPowLimit = powLimit params;
     bnNew \<leftarrow> div_u64 (mul_u32 (fst (SetCompact (nBits pindexLast))) nModulatedTimespan)
                (nPowTargetTimespan params);
     Some (if bnNew > bnPowLimit then bnPowLimit else bnNew)
   }"

definition CalculateNextWorkRequired :: "CBlockIndex \<Rightarrow> int \<Rightarrow> Params \<Rightarrow> nat option" where
  "CalculateNextWorkRequired pindexLast nFirstBlockTime params =
     (if fPowNoRetargeting params then Some (nBits pindexLast)
      else do {
        bnNew \<leftarrow> next_target pindexLast nFirstBlockTime params;
        Some (GetCompact bnNew)
      })"

text \<open>\<open>adjustedTime\<close> is the value of \<open>GetAdjustedTime()\<close>, the network-adjusted clock.\<close>

definition ValidateBlockTime :: "int \<Rightarrow> CBlockIndex \<Rightarrow> CBlockHeader option \<Rightarrow> bool option" where
  "ValidateBlockTime adjustedTime pindexLast pblock =
     (case pblock of
        None \<Rightarrow> Some True
      | Some blk \<Rightarrow>
          if header_nTime blk \<le> nMedianTimePast pindexLast then Some False
          else do {
            latest \<leftarrow> int64 (adjustedTime + 2 * 60 * 60);
            if header_nTime blk > latest then Some False else Some True
          })"

text \<open>
  The loop \<open>while (pindex->pprev && pindex->nHeight % params.DifficultyAdjustmentInterval() != 0
  && pindex->nBits == nProofOfWorkLimit) pindex = pindex->pprev;\<close> and the block it ends on.
\<close>

fun walk_back :: "Params \<Rightarrow> nat \<Rightarrow> CBlockIndex \<Rightarrow> CBlockIndex option" where
  "walk_back params nProofOfWorkLimit (CBlockIndex h t b m p) =
     (case p of
        None \<Rightarrow> Some (CBlockIndex h t b m p)
      | Some q \<Rightarrow>
          (case DifficultyAdjustmentInterval params of
             None \<Rightarrow> None
           | Some interval \<Rightarrow>
               (case rem64 h interval of
                  None \<Rightarrow> None
                | Some r \<Rightarrow>
                    if r \<noteq> 0 \<and> b = nProofOfWorkLimit
                    then walk_back params nProofOfWorkLimit q
                    else Some (CBlockIndex h t b m p))))"

text \<open>
  The interval of \<open>GetNextWorkRequired\<close>: \<open>fNewDifficultyProtocol\<close>,
  \<open>nTargetTimespanCurrent\<close> and \<open>difficultyAdjustmentInterval\<close>, from the height
  of the block to come.
\<close>

definition era_interval :: "Params \<Rightarrow> int \<Rightarrow> int option" where
  "era_interval params next_height = do {
     let fNewDifficultyProtocol = (next_height \<ge> 69360);
     nTargetTimespanCurrent \<leftarrow>
       (if fNewDifficultyProtocol then Some (nPowTargetTimespan params)
        else int64 (nPowTargetTimespan params * 12));
     div64 nTargetTimespanCurrent (nPowTargetSpacing params)
   }"

text \<open>
  \<open>AllowDigishieldMinDifficultyForBlock\<close> is defined outside pow.cpp and is a parameter
  of the model, as is the adjusted time.
\<close>

definition GetNextWorkRequired ::
  "(CBlockIndex \<Rightarrow> CBlockHeader option \<Rightarrow> Params \<Rightarrow> bool) \<Rightarrow> int \<Rightarrow>
   CBlockIndex option \<Rightarrow> CBlockHeader option \<Rightarrow> Params \<Rightarrow> nat option" where
  "GetNextWorkRequired AllowDigishieldMinDifficultyForBlock adjustedTime pindexLast pblock params =
     (let nProofOfWorkLimit = GetCompact (powLimit params) in
      case pindexLast of
        None \<Rightarrow> Some nProofOfWorkLimit
      | Some pLast \<Rightarrow> do {
          valid \<leftarrow> ValidateBlockTime adjustedTime pLast pblock;
          if \<not> valid then Some nProofOfWorkLimit
          else if AllowDigishieldMinDifficultyForBlock pLast pblock params
          then Some nProofOfWorkLimit
          else do {
            next_height \<leftarrow> int32 (nHeight pLast + 1);
            difficultyAdjustmentInterval \<leftarrow> era_interval params next_height;
            r \<leftarrow> rem64 next_height difficultyAdjustmentInterval;
            if r \<noteq> 0 then
              (if fPowAllowMinDifficultyBlocks params then
                 (case pblock of
                    None \<Rightarrow> None
                  | Some blk \<Rightarrow> do {
                      delay \<leftarrow> int64 (nPowTargetSpacing params * 6);
                      late \<leftarrow> int64 (nTime pLast + delay);
                      if header_nTime blk > late then Some nProofOfWorkLimit
                      else do {
                        pindex \<leftarrow> walk_back params nProofOfWorkLimit pLast;
                        Some (nBits pindex)
                      }
                    })
               else Some (nBits pLast))
            else do {
              interval_minus_1 \<leftarrow> int64 (difficultyAdjustmentInterval - 1);
              let blockstogoback =
                (if next_height \<noteq> difficultyAdjustmentInterval
                 then to_int32 difficultyAdjustmentInterval
                 else to_int32 interval_minus_1);
              nHeightFirst \<leftarrow> int32 (nHeight pLast - blockstogoback);
              if nHeightFirst < 0 then None
              else do {
                pindexFirst \<leftarrow> GetAncestor pLast nHeightFirst;
                nBits' \<leftarrow> CalculateNextWorkRequired pLast (nTime pindexFirst) params;
                permitted \<leftarrow>
                  PermittedDifficultyTransition params next_height (nBits pLast) nBits';
                if \<not> permitted then Some (nBits pLast) else Some nBits'
              }
            }
          }
        })"

text \<open>\<open>hash\<close> is the block hash read as a 256-bit magnitude.\<close>

definition CheckProofOfWork :: "nat \<Rightarrow> nat \<Rightarrow> Params \<Rightarrow> bool" where
  "CheckProofOfWork hash nBits' params =
     (case SetCompact nBits' of
        (bnTarget, fNegative, fOverflow) \<Rightarrow>
          if fNegative \<or> bnTarget = 0 \<or> fOverflow \<or> bnTarget > powLimit params then False
          else if hash > bnTarget then False
          else True)"

section \<open>Chains and sample inputs\<close>

text \<open>
  The blocks from a block back to genesis, the spec's BlockView invariant that the height
  grows by one along predecessor links, and the condition on which the backward walk of
  \<open>GetNextWorkRequired\<close> ends.
\<close>

fun ancestry :: "CBlockIndex \<Rightarrow> CBlockIndex list" where
  "ancestry (CBlockIndex h t b m p) =
     CBlockIndex h t b m p # (case p of None \<Rightarrow> [] | Some q \<Rightarrow> ancestry q)"

fun chain_ok :: "CBlockIndex \<Rightarrow> bool" where
  "chain_ok (CBlockIndex h t b m p) =
     (case p of None \<Rightarrow> True | Some q \<Rightarrow> nHeight q = h - 1 \<and> chain_ok q)"

definition walk_stops :: "int \<Rightarrow> nat \<Rightarrow> CBlockIndex \<Rightarrow> bool" where
  "walk_stops interval nProofOfWorkLimit pindex =
     (pprev pindex = None \<or> c_rem (nHeight pindex) interval = 0
      \<or> nBits pindex \<noteq> nProofOfWorkLimit)"

text \<open>A digishield gate that never fires, and inputs for the concrete instances.\<close>

definition no_digishield :: "CBlockIndex \<Rightarrow> CBlockHeader option \<Rightarrow> Params \<Rightarrow> bool" where
  "no_digishield pindexLast pblock params = False"

abbreviation sample_params :: "bool \<Rightarrow> Params" where
  "sample_params allow \<equiv>
     \<lparr>powLimit = 2 ^ 236 - 1, nPowTargetSpacing = 60, nPowTargetTimespan = 86400,
      fPowAllowMinDifficultyBlocks = allow, fPowNoRetargeting = False\<rparr>"

abbreviation genesis_block :: CBlockIndex where
  "genesis_block \<equiv> CBlockIndex 0 1000000 504365040 1000000 None"

abbreviation block_one :: CBlockIndex where
  "block_one \<equiv> CBlockIndex 1 1000060 504365040 1000000 (Some genesis_block)"

abbreviation easy_one :: CBlockIndex where
  "easy_one \<equiv> CBlockIndex 1 1000060 504365055 1000000 (Some genesis_block)"

abbreviation easy_two :: CBlockIndex where
  "easy_two \<equiv> CBlockIndex 2 1000120 504365055 1000060 (Some easy_one)"

text \<open>
  A parameter set of a chain without minimum-difficulty blocks, by its proof-of-work
  limit, spacing, timespan and no-retargeting flag.
\<close>

abbreviation chain_params :: "nat \<Rightarrow> int \<Rightarrow> int \<Rightarrow> bool \<Rightarrow> Params" where
  "chain_params L s T nr \<equiv>
     \<lparr>powLimit = L, nPowTargetSpacing = s, nPowTargetTimespan = T,
      fPowAllowMinDifficultyBlocks = False, fPowNoRetargeting = nr\<rparr>"

section \<open>The transition guard off the adjustment heights\<close>

text \<open>
  C4. On a chain that allows minimum-difficulty blocks every transition is permitted;
  on a chain that does not, at a height that is not a multiple of the adjustment
  interval, a transition is permitted exactly when the two compact values are equal.
\<close>

theorem C4_permitted_off_boundary:
  "(fPowAllowMinDifficultyBlocks params \<longrightarrow>
      PermittedDifficultyTransition params height old_nbits new_nbits = Some True) \<and>
   (\<not> fPowAllowMinDifficultyBlocks params \<longrightarrow>
      DifficultyAdjustmentInterval params = Some interval \<longrightarrow>
      rem64 height interval = Some r \<longrightarrow> r \<noteq> 0 \<longrightarrow>
      PermittedDifficultyTransition params height old_nbits new_nbits
        = Some (old_nbits = new_nbits))"
  by (simp add: PermittedDifficultyTransition_def)

theorem C4_permitted_off_boundary_witness:
  "PermittedDifficultyTransition
     \<lparr>powLimit = 2 ^ 236 - 1, nPowTargetSpacing = 60, nPowTargetTimespan = 86400,
      fPowAllowMinDifficultyBlocks = True, fPowNoRetargeting = False\<rparr>
     1441 486604799 503382015 = Some True \<and>
   DifficultyAdjustmentInterval
     \<lparr>powLimit = 2 ^ 236 - 1, nPowTargetSpacing = 60, nPowTargetTimespan = 86400,
      fPowAllowMinDifficultyBlocks = False, fPowNoRetargeting = False\<rparr> = Some 1440 \<and>
   rem64 1441 1440 = Some 1 \<and>
   PermittedDifficultyTransition
     \<lparr>powLimit = 2 ^ 236 - 1, nPowTargetSpacing = 60, nPowTargetTimespan = 86400,
      fPowAllowMinDifficultyBlocks = False, fPowNoRetargeting = False\<rparr>
     1441 486604799 503382015 = Some False"
proof -
  let ?on = "\<lparr>powLimit = 2 ^ 236 - 1, nPowTargetSpacing = 60, nPowTargetTimespan = 86400,
      fPowAllowMinDifficultyBlocks = True, fPowNoRetargeting = False\<rparr>"
  let ?off = "\<lparr>powLimit = 2 ^ 236 - 1, nPowTargetSpacing = 60, nPowTargetTimespan = 86400,
      fPowAllowMinDifficultyBlocks = False, fPowNoRetargeting = False\<rparr>"
  have i: "DifficultyAdjustmentInterval ?off = Some 1440"
    by (simp add: DifficultyAdjustmentInterval_def div64_def c_div_def)
  have r: "rem64 1441 1440 = Some 1"
    by (simp add: rem64_def c_rem_def)
  from C4_permitted_off_boundary [of ?on 1441 486604799 503382015]
  have a: "PermittedDifficultyTransition ?on 1441 486604799 503382015 = Some True"
    by simp
  from C4_permitted_off_boundary [of ?off 1441 486604799 503382015 1440 1] i r
  have b: "PermittedDifficultyTransition ?off 1441 486604799 503382015 = Some False"
    by simp
  from a i r b show ?thesis by simp
qed

section \<open>The proof-of-work check\<close>

text \<open>
  C3. \<open>CheckProofOfWork\<close> returns true exactly when the decoded target is not
  negative-flagged, not zero, not overflow-flagged, at most the proof-of-work limit, and
  the hash is at most the target. So it is false whenever one of the decode conditions
  fails, and true for every hash at most a target that is positive and at most the limit.
\<close>

theorem C3_check_proof_of_work:
  "SetCompact nBits' = (bnTarget, fNegative, fOverflow) \<Longrightarrow>
   (CheckProofOfWork hash nBits' params \<longleftrightarrow>
      \<not> fNegative \<and> bnTarget \<noteq> 0 \<and> \<not> fOverflow \<and> bnTarget \<le> powLimit params
      \<and> hash \<le> bnTarget) \<and>
   (fNegative \<or> bnTarget = 0 \<or> fOverflow \<or> bnTarget > powLimit params
      \<longrightarrow> \<not> CheckProofOfWork hash nBits' params) \<and>
   (\<not> fNegative \<and> \<not> fOverflow \<and> hash \<le> bnTarget \<and> 0 < bnTarget
      \<and> bnTarget \<le> powLimit params \<longrightarrow> CheckProofOfWork hash nBits' params)"
  by (auto simp add: CheckProofOfWork_def)

theorem C3_check_proof_of_work_witness:
  "SetCompact 486604799 = (65535 * 2 ^ 208, False, False) \<and>
   CheckProofOfWork (2 ^ 200)  486604799
     \<lparr>powLimit = 2 ^ 236 - 1, nPowTargetSpacing = 60, nPowTargetTimespan = 86400,
      fPowAllowMinDifficultyBlocks = False, fPowNoRetargeting = False\<rparr> \<and>
   \<not> CheckProofOfWork (2 ^ 224) 486604799
     \<lparr>powLimit = 2 ^ 236 - 1, nPowTargetSpacing = 60, nPowTargetTimespan = 86400,
      fPowAllowMinDifficultyBlocks = False, fPowNoRetargeting = False\<rparr>"
proof -
  let ?p = "\<lparr>powLimit = 2 ^ 236 - 1, nPowTargetSpacing = 60, nPowTargetTimespan = 86400,
      fPowAllowMinDifficultyBlocks = False, fPowNoRetargeting = False\<rparr>"
  have d: "SetCompact 486604799 = (65535 * 2 ^ 208, False, False)"
    by (simp add: SetCompact_def)
  from C3_check_proof_of_work [OF d, of "2 ^ 200" ?p]
  have a: "CheckProofOfWork (2 ^ 200) 486604799 ?p" by simp
  from C3_check_proof_of_work [OF d, of "2 ^ 224" ?p]
  have b: "\<not> CheckProofOfWork (2 ^ 224) 486604799 ?p" by simp
  from d a b show ?thesis by simp
qed

section \<open>The orchestrator off the adjustment heights\<close>

text \<open>
  C2 (amended). For a previous block and a candidate header that passes
  \<open>ValidateBlockTime\<close> (or no header at all), when the digishield gate does not fire,
  the chain does not allow minimum-difficulty blocks and the next height is not a multiple
  of the era's adjustment interval, \<open>GetNextWorkRequired\<close> returns the previous
  block's \<open>nBits\<close>.
\<close>

theorem C2_non_boundary_keeps_nbits:
  assumes "ValidateBlockTime adjustedTime pLast pblock = Some True"
    and "\<not> AllowDigishield pLast pblock params"
    and "\<not> fPowAllowMinDifficultyBlocks params"
    and "int32 (nHeight pLast + 1) = Some next_height"
    and "era_interval params next_height = Some interval"
    and "rem64 next_height interval = Some r"
    and "r \<noteq> 0"
  shows "GetNextWorkRequired AllowDigishield adjustedTime (Some pLast) pblock params
           = Some (nBits pLast)"
  using assms by (simp add: GetNextWorkRequired_def)

theorem C2_non_boundary_keeps_nbits_witness:
  "ValidateBlockTime 1000100 block_one (Some (CBlockHeader 1000090)) = Some True \<and>
   \<not> no_digishield block_one (Some (CBlockHeader 1000090)) (sample_params False) \<and>
   int32 (nHeight block_one + 1) = Some 2 \<and>
   era_interval (sample_params False) 2 = Some 17280 \<and>
   rem64 2 17280 = Some 2 \<and>
   GetNextWorkRequired no_digishield 1000100 (Some block_one) (Some (CBlockHeader 1000090))
     (sample_params False) = Some 504365040"
proof -
  have v: "ValidateBlockTime 1000100 block_one (Some (CBlockHeader 1000090)) = Some True"
    by (simp add: ValidateBlockTime_def int64_def)
  have h: "int32 (nHeight block_one + 1) = Some 2" by (simp add: int32_def)
  have e: "era_interval (sample_params False) 2 = Some 17280"
    by (simp add: era_interval_def div64_def int64_def c_div_def)
  have r: "rem64 2 17280 = Some 2" by (simp add: rem64_def c_rem_def)
  have d: "\<not> no_digishield block_one (Some (CBlockHeader 1000090)) (sample_params False)"
    by (simp add: no_digishield_def)
  from C2_non_boundary_keeps_nbits [where AllowDigishield = no_digishield, OF v d _ h e r]
    v d h e r
  show ?thesis by simp
qed

text \<open>
  The claim without the condition on \<open>ValidateBlockTime\<close> fails: a header whose
  timestamp is not after the previous block's median time past gets the compact
  proof-of-work limit, here \<open>0x1e0fffff\<close>, although the previous \<open>nBits\<close> is
  \<open>0x1e0ffff0\<close>, the height is off the boundary and no minimum-difficulty rule applies.
\<close>

theorem C2_counterexample:
  "\<not> fPowAllowMinDifficultyBlocks (sample_params False) \<and>
   \<not> no_digishield block_one (Some (CBlockHeader 1000000)) (sample_params False) \<and>
   int32 (nHeight block_one + 1) = Some 2 \<and>
   era_interval (sample_params False) 2 = Some 17280 \<and>
   rem64 2 17280 = Some 2 \<and>
   GetNextWorkRequired no_digishield 1000100 (Some block_one) (Some (CBlockHeader 1000000))
     (sample_params False) = Some 504365055 \<and>
   nBits block_one = 504365040"
  by (simp add: GetNextWorkRequired_def ValidateBlockTime_def no_digishield_def era_interval_def
      div64_def rem64_def int64_def int32_def c_div_def c_rem_def GetCompact_def bits.simps)

section \<open>The backward walk on a minimum-difficulty chain\<close>

lemma c_rem_eq_0_iff: "0 < b \<Longrightarrow> c_rem a b = 0 \<longleftrightarrow> a mod b = 0"
proof -
  assume b: "0 < b"
  have "c_rem a b = 0 \<longleftrightarrow> a = 0 \<or> \<bar>a\<bar> mod b = 0"
    using b by (auto simp add: c_rem_def sgn_if)
  also have "\<dots> \<longleftrightarrow> b dvd \<bar>a\<bar>" by (auto simp add: mod_eq_0_iff_dvd)
  also have "\<dots> \<longleftrightarrow> a mod b = 0" by (simp add: mod_eq_0_iff_dvd)
  finally show ?thesis .
qed

lemma rem64_pos: "0 < b \<Longrightarrow> rem64 a b = Some (c_rem a b)"
  by (simp add: rem64_def)

lemma ancestry_hd: "ancestry b ! 0 = b"
  by (cases b) simp

lemma walk_back_step:
  "DifficultyAdjustmentInterval params = Some interval \<Longrightarrow> 0 < interval \<Longrightarrow>
   walk_back params limit (CBlockIndex h t b m p) =
     (case p of
        None \<Rightarrow> Some (CBlockIndex h t b m p)
      | Some q \<Rightarrow>
          if c_rem h interval \<noteq> 0 \<and> b = limit then walk_back params limit q
          else Some (CBlockIndex h t b m p))"
  by (simp add: rem64_pos split: option.splits)

text \<open>
  The walk ends on the first block of the ancestry on which \<open>walk_stops\<close> holds, and on
  a well-formed chain that block is fewer than one interval of predecessor links away.
\<close>

lemma walk_back_first:
  "DifficultyAdjustmentInterval params = Some interval \<Longrightarrow> 0 < interval \<Longrightarrow>
   \<exists>k < length (ancestry b).
      walk_back params limit b = Some (ancestry b ! k) \<and>
      walk_stops interval limit (ancestry b ! k) \<and>
      (\<forall>j < k. \<not> walk_stops interval limit (ancestry b ! j)) \<and>
      (chain_ok b \<longrightarrow> int k \<le> nHeight b mod interval)"
proof (induction params limit b rule: walk_back.induct)
  case (1 params limit h t b m p)
  note iv = "1.prems"
  let ?me = "CBlockIndex h t b m p"
  show ?case
  proof (cases "walk_stops interval limit ?me")
    case True
    then have "walk_back params limit ?me = Some ?me"
      by (auto simp add: walk_stops_def walk_back_step [OF iv] simp del: walk_back.simps
          split: option.splits)
    moreover have "0 \<le> h mod interval" using iv(2) by simp
    ultimately show ?thesis using True
      by (intro exI [of _ 0]) (simp add: ancestry_hd del: walk_back.simps)
  next
    case False
    then obtain q where q: "p = Some q" and r: "c_rem h interval \<noteq> 0" and b: "b = limit"
      by (auto simp add: walk_stops_def)
    from "1.IH" [OF q iv(1) rem64_pos [OF iv(2)] _ iv] r b
    obtain k where k: "k < length (ancestry q)"
        "walk_back params limit q = Some (ancestry q ! k)"
        "walk_stops interval limit (ancestry q ! k)"
        "\<forall>j < k. \<not> walk_stops interval limit (ancestry q ! j)"
        "chain_ok q \<longrightarrow> int k \<le> nHeight q mod interval"
      by auto
    have w: "walk_back params limit ?me = Some (ancestry ?me ! Suc k)"
      using q r b k(2) by (simp add: walk_back_step [OF iv] del: walk_back.simps)
    have first: "\<forall>j < Suc k. \<not> walk_stops interval limit (ancestry ?me ! j)"
    proof (intro allI impI)
      fix j assume "j < Suc k"
      then show "\<not> walk_stops interval limit (ancestry ?me ! j)"
        using False k(4) q by (cases j) auto
    qed
    have bound: "chain_ok ?me \<longrightarrow> int (Suc k) \<le> nHeight ?me mod interval"
    proof
      assume ok: "chain_ok ?me"
      then have hq: "nHeight q = h - 1" and okq: "chain_ok q" using q by auto
      from r iv(2) have nz: "h mod interval \<noteq> 0" by (simp add: c_rem_eq_0_iff)
      have "(h - 1) mod interval = (h mod interval - 1) mod interval"
        by (simp add: mod_diff_left_eq)
      also have "\<dots> = h mod interval - 1"
        using nz iv(2) pos_mod_sign [of interval h] pos_mod_bound [of interval h]
        by (intro mod_pos_pos_trivial) linarith+
      finally have "(h - 1) mod interval = h mod interval - 1" .
      with k(5) okq hq show "int (Suc k) \<le> nHeight ?me mod interval" by simp
    qed
    from k(1) k(3) w first bound q show ?thesis
      by (intro exI [of _ "Suc k"]) simp
  qed
qed

text \<open>
  C9. On a chain that allows minimum-difficulty blocks, at a height off the era's
  boundary and for a candidate whose timestamp is not delayed, the walk of
  \<open>GetNextWorkRequired\<close> returns: it ends \<open>k\<close> predecessor links behind the previous
  block with \<open>k\<close> below \<open>DifficultyAdjustmentInterval()\<close>, on the first block of the
  ancestry that is genesis, or at a height divisible by the interval, or whose
  \<open>nBits\<close> is not the compact proof-of-work limit, and the result is that block's
  \<open>nBits\<close>. The hypotheses say that control reaches the walk (the timestamp check
  passed, the digishield gate did not fire) on a well-formed chain with a positive interval.
\<close>

theorem C9_walk_back_bounded:
  assumes "fPowAllowMinDifficultyBlocks params"
    and "ValidateBlockTime adjustedTime pLast (Some blk) = Some True"
    and "\<not> AllowDigishield pLast (Some blk) params"
    and "int32 (nHeight pLast + 1) = Some next_height"
    and "era_interval params next_height = Some era"
    and "rem64 next_height era = Some r"
    and "r \<noteq> 0"
    and "int64 (nPowTargetSpacing params * 6) = Some delay"
    and "int64 (nTime pLast + delay) = Some late"
    and "\<not> header_nTime blk > late"
    and "DifficultyAdjustmentInterval params = Some interval"
    and "0 < interval"
    and "chain_ok pLast"
  shows "\<exists>k < length (ancestry pLast).
           int k < interval \<and>
           walk_stops interval (GetCompact (powLimit params)) (ancestry pLast ! k) \<and>
           (\<forall>j < k. \<not> walk_stops interval (GetCompact (powLimit params)) (ancestry pLast ! j)) \<and>
           GetNextWorkRequired AllowDigishield adjustedTime (Some pLast) (Some blk) params
             = Some (nBits (ancestry pLast ! k))"
proof -
  let ?limit = "GetCompact (powLimit params)"
  from walk_back_first [OF assms(11) assms(12), of pLast ?limit] assms(13)
  obtain k where k: "k < length (ancestry pLast)"
      "walk_back params ?limit pLast = Some (ancestry pLast ! k)"
      "walk_stops interval ?limit (ancestry pLast ! k)"
      "\<forall>j < k. \<not> walk_stops interval ?limit (ancestry pLast ! j)"
      "int k \<le> nHeight pLast mod interval"
    by auto
  from k(5) assms(12) have "int k < interval"
    using pos_mod_bound [of interval "nHeight pLast"] by linarith
  moreover have "GetNextWorkRequired AllowDigishield adjustedTime (Some pLast) (Some blk) params
      = Some (nBits (ancestry pLast ! k))"
    using assms(1-10) k(2) by (simp add: GetNextWorkRequired_def)
  ultimately show ?thesis using k(1) k(3) k(4) by blast
qed

theorem C9_walk_back_bounded_witness:
  "ValidateBlockTime 1000200 easy_two (Some (CBlockHeader 1000180)) = Some True \<and>
   \<not> no_digishield easy_two (Some (CBlockHeader 1000180)) (sample_params True) \<and>
   int32 (nHeight easy_two + 1) = Some 3 \<and>
   era_interval (sample_params True) 3 = Some 17280 \<and>
   rem64 3 17280 = Some 3 \<and>
   int64 (nPowTargetSpacing (sample_params True) * 6) = Some 360 \<and>
   int64 (nTime easy_two + 360) = Some 1000480 \<and>
   DifficultyAdjustmentInterval (sample_params True) = Some 1440 \<and>
   chain_ok easy_two \<and>
   (\<exists>k < length (ancestry easy_two).
      int k < 1440 \<and>
      walk_stops 1440 (GetCompact (powLimit (sample_params True))) (ancestry easy_two ! k) \<and>
      (\<forall>j < k. \<not> walk_stops 1440 (GetCompact (powLimit (sample_params True)))
                    (ancestry easy_two ! j)) \<and>
      GetNextWorkRequired no_digishield 1000200 (Some easy_two) (Some (CBlockHeader 1000180))
        (sample_params True) = Some (nBits (ancestry easy_two ! k)))"
proof -
  have v: "ValidateBlockTime 1000200 easy_two (Some (CBlockHeader 1000180)) = Some True"
    by (simp add: ValidateBlockTime_def int64_def)
  have d: "\<not> no_digishield easy_two (Some (CBlockHeader 1000180)) (sample_params True)"
    by (simp add: no_digishield_def)
  have h: "int32 (nHeight easy_two + 1) = Some 3" by (simp add: int32_def)
  have e: "era_interval (sample_params True) 3 = Some 17280"
    by (simp add: era_interval_def div64_def int64_def c_div_def)
  have r: "rem64 3 17280 = Some 3" by (simp add: rem64_def c_rem_def)
  have s: "int64 (nPowTargetSpacing (sample_params True) * 6) = Some 360"
    by (simp add: int64_def)
  have l: "int64 (nTime easy_two + 360) = Some 1000480" by (simp add: int64_def)
  have n: "\<not> header_nTime (CBlockHeader 1000180) > 1000480" by simp
  have i: "DifficultyAdjustmentInterval (sample_params True) = Some 1440"
    by (simp add: DifficultyAdjustmentInterval_def div64_def c_div_def)
  have c: "chain_ok easy_two" by simp
  from C9_walk_back_bounded [where AllowDigishield = no_digishield,
      OF _ v d h e r _ s l n i _ c] v d h e r s l i c
  show ?thesis by simp
qed

section \<open>Rounding to double\<close>

lemma pow2_powi: "pow2 e = 2 powi e"
  by (simp add: pow2_def power_int_def field_simps)

lemma pow2_pos: "0 < pow2 e"
  by (simp add: pow2_powi)

lemma pow2_add: "pow2 (a + b) = pow2 a * pow2 b"
  by (simp add: pow2_powi power_int_add)

lemma pow2_mono: "a \<le> b \<Longrightarrow> pow2 a \<le> pow2 b"
  by (simp add: pow2_powi power_int_increasing)

lemma pow2_strict_mono: "a < b \<Longrightarrow> pow2 a < pow2 b"
  by (simp add: pow2_powi power_int_strict_increasing)

lemma pow2_less_iff: "pow2 a < pow2 b \<longleftrightarrow> a < b"
  using pow2_strict_mono [of a b] pow2_mono [of b a] by (cases "a < b") auto

lemma pow2_nat: "pow2 (int n) = 2 ^ n"
  by (simp add: pow2_def)

lemma bits_bounds: "0 < n \<Longrightarrow> 2 ^ (bits n - 1) \<le> n \<and> n < 2 ^ bits n"
proof (induction n rule: bits.induct)
  case (1 n)
  show ?case
  proof (cases "n div 2 = 0")
    case True
    with "1.prems" have "n = 1" by presburger
    then show ?thesis by (simp add: bits.simps)
  next
    case False
    with "1.IH" "1.prems" have ih: "2 ^ (bits (n div 2) - 1) \<le> n div 2" "n div 2 < 2 ^ bits (n div 2)"
      by auto
    have b: "bits n = Suc (bits (n div 2))" using "1.prems" by (simp add: bits.simps)
    have p: "0 < bits (n div 2)" using False by (simp add: bits.simps)
    from ih(1) have "2 * 2 ^ (bits (n div 2) - 1) \<le> n" by presburger
    moreover have "2 * 2 ^ (bits (n div 2) - 1) = (2::nat) ^ bits (n div 2)"
      using p by (cases "bits (n div 2)") auto
    moreover from ih(2) have "n < 2 * 2 ^ bits (n div 2)" by presburger
    ultimately show ?thesis using b by simp
  qed
qed

lemma bits_pos: "0 < n \<Longrightarrow> 0 < bits n"
  by (simp add: bits.simps)

lemma pow2_neg_nat: "pow2 (- int m) = 1 / 2 ^ m"
  by (simp add: pow2_powi power_int_minus_divide)

lemma real_pow2_le: "(2::nat) ^ k \<le> n \<Longrightarrow> (2::real) ^ k \<le> real n"
  using of_nat_mono [of "2 ^ k" n, where 'a = real] by simp

lemma real_less_pow2: "n < (2::nat) ^ k \<Longrightarrow> real n + 1 \<le> 2 ^ k"
  using of_nat_mono [of "Suc n" "2 ^ k", where 'a = real] by simp

lemma ilog2_bounds:
  assumes "0 < x"
  shows "pow2 (ilog2 x) \<le> x \<and> x < pow2 (ilog2 x + 1)"
proof (cases "1 \<le> x")
  case True
  define n where "n = nat \<lfloor>x\<rfloor>"
  have fl1: "1 \<le> \<lfloor>x\<rfloor>" using True by linarith
  have n: "0 < n" using fl1 by (simp add: n_def)
  have rn: "real n = of_int \<lfloor>x\<rfloor>" using fl1 by (simp add: n_def)
  have nx: "real n \<le> x" "x < real n + 1" unfolding rn by linarith+
  from bits_bounds [OF n] have b: "2 ^ (bits n - 1) \<le> n" "n < 2 ^ bits n" by auto
  have e: "ilog2 x = int (bits n - 1)"
    using True bits_pos [OF n] by (simp add: ilog2_def n_def)
  have e1: "ilog2 x + 1 = int (bits n)"
    using e bits_pos [OF n] by simp
  have "pow2 (ilog2 x) = 2 ^ (bits n - 1)" unfolding e by (rule pow2_nat)
  also have "\<dots> \<le> real n" using b(1) by (rule real_pow2_le)
  finally have lo: "pow2 (ilog2 x) \<le> x" using nx(1) by linarith
  have "real n + 1 \<le> 2 ^ bits n" using b(2) by (rule real_less_pow2)
  also have "\<dots> = pow2 (ilog2 x + 1)" unfolding e1 by (rule pow2_nat [symmetric])
  finally show ?thesis using lo nx(2) by linarith
next
  case False
  define c where "c = \<lceil>1 / x\<rceil>"
  define n where "n = nat (c - 1)"
  from False assms have inv: "1 < 1 / x" by simp
  then have c2: "2 \<le> c" unfolding c_def by linarith
  have cx: "1 / x \<le> real_of_int c" "real_of_int c - 1 < 1 / x"
    unfolding c_def by linarith+
  have n: "0 < n" using c2 by (simp add: n_def)
  have rn: "real n = real_of_int c - 1" using c2 by (simp add: n_def)
  from bits_bounds [OF n] have b: "2 ^ (bits n - 1) \<le> n" "n < 2 ^ bits n" by auto
  have e: "ilog2 x = - int (bits n)" using False by (simp add: ilog2_def n_def c_def)
  have e1: "ilog2 x + 1 = - int (bits n - 1)" using e bits_pos [OF n] by simp
  have "real n + 1 \<le> 2 ^ bits n" using b(2) by (rule real_less_pow2)
  with cx(1) rn have "1 / x \<le> 2 ^ bits n" by linarith
  then have "1 \<le> 2 ^ bits n * x" using assms by (simp add: pos_divide_le_eq)
  then have "1 / 2 ^ bits n \<le> x" by (simp add: pos_divide_le_eq mult.commute)
  then have lo: "pow2 (ilog2 x) \<le> x" unfolding e pow2_neg_nat .
  have "(2::real) ^ (bits n - 1) \<le> real n" using b(1) by (rule real_pow2_le)
  with cx(2) rn have "2 ^ (bits n - 1) < 1 / x" by linarith
  then have "2 ^ (bits n - 1) * x < 1" using assms by (simp add: pos_less_divide_eq)
  then have "x < 1 / 2 ^ (bits n - 1)" by (simp add: pos_less_divide_eq mult.commute)
  then have "x < pow2 (ilog2 x + 1)" unfolding e1 pow2_neg_nat .
  with lo show ?thesis by simp
qed

lemma rne_cases: "rne x = \<lfloor>x\<rfloor> \<or> rne x = \<lfloor>x\<rfloor> + 1"
  by (simp add: rne_def Let_def)

lemma rne_of_int: "rne (of_int n) = n"
  by (simp add: rne_def Let_def)

lemma rne_le_int: "x \<le> of_int n \<Longrightarrow> rne x \<le> n"
proof (cases "x = of_int n")
  case True
  then show ?thesis by (simp add: rne_of_int)
next
  case False
  assume "x \<le> of_int n"
  with False have "x < of_int n" by simp
  then have "\<lfloor>x\<rfloor> < n" by linarith
  with rne_cases [of x] show ?thesis by linarith
qed

lemma rne_ge_int: "of_int n \<le> x \<Longrightarrow> n \<le> rne x"
proof -
  assume "of_int n \<le> x"
  then have "n \<le> \<lfloor>x\<rfloor>" by linarith
  with rne_cases [of x] show ?thesis by linarith
qed

lemma rne_frac:
  "rne x = (if x - of_int \<lfloor>x\<rfloor> < 1 / 2 then \<lfloor>x\<rfloor>
            else if 1 / 2 < x - of_int \<lfloor>x\<rfloor> then \<lfloor>x\<rfloor> + 1
            else if even \<lfloor>x\<rfloor> then \<lfloor>x\<rfloor> else \<lfloor>x\<rfloor> + 1)"
  by (simp add: rne_def Let_def)

lemma rne_mono: "x \<le> y \<Longrightarrow> rne x \<le> rne y"
proof -
  assume xy: "x \<le> y"
  then have f: "\<lfloor>x\<rfloor> \<le> \<lfloor>y\<rfloor>" by (rule floor_mono)
  show ?thesis
  proof (cases "\<lfloor>x\<rfloor> = \<lfloor>y\<rfloor>")
    case False
    with f have "\<lfloor>x\<rfloor> + 1 \<le> \<lfloor>y\<rfloor>" by simp
    with rne_cases [of x] rne_cases [of y] show ?thesis by linarith
  next
    case True
    define n where "n = \<lfloor>y\<rfloor>"
    define a where "a = x - of_int n"
    define b where "b = y - of_int n"
    have ab: "a \<le> b" using xy by (simp add: a_def b_def)
    have rx: "rne x = (if a < 1 / 2 then n else if 1 / 2 < a then n + 1
                       else if even n then n else n + 1)"
      unfolding rne_frac [of x] True a_def n_def ..
    have ry: "rne y = (if b < 1 / 2 then n else if 1 / 2 < b then n + 1
                       else if even n then n else n + 1)"
      unfolding rne_frac [of y] b_def n_def ..
    show ?thesis unfolding rx ry using ab by (simp split: if_splits)
  qed
qed

lemma rne_minus: "rne (- x) = - rne x"
proof (cases "x = of_int \<lfloor>x\<rfloor>")
  case True
  then obtain n where n: "x = of_int n" ..
  then have "- x = of_int (- n)" by simp
  then have "rne (- x) = - n" by (simp only: rne_of_int)
  with n show ?thesis by (simp only: rne_of_int)
next
  case False
  define n where "n = \<lfloor>x\<rfloor>"
  define a where "a = x - of_int n"
  have lt: "0 < a" "a < 1"
    using False unfolding a_def n_def by linarith+
  have c: "\<lfloor>- x\<rfloor> = - n - 1"
    by (rule floor_unique) (use lt in \<open>simp_all add: a_def\<close>)
  have r: "- x - of_int (- n - 1) = 1 - a" by (simp add: a_def)
  have rx: "rne x = (if a < 1 / 2 then n else if 1 / 2 < a then n + 1
                     else if even n then n else n + 1)"
    unfolding rne_frac [of x] a_def n_def ..
  have ry: "rne (- x) = (if 1 - a < 1 / 2 then - n - 1 else if 1 / 2 < 1 - a then - n - 1 + 1
                     else if even (- n - 1) then - n - 1 else - n - 1 + 1)"
    unfolding rne_frac [of "- x"] c r ..
  show ?thesis unfolding rx ry using lt by (simp split: if_splits)
qed

lemma fl_quantum: "x \<noteq> 0 \<Longrightarrow> fl x = quantum x * of_int (rne (x / quantum x))"
  by (simp add: fl_def)

lemma quantum_pos: "0 < quantum x"
  by (simp add: quantum_def pow2_pos)

lemma quantum_minus: "quantum (- x) = quantum x"
  by (simp add: quantum_def)

lemma fl_minus: "fl (- x) = - fl x"
proof (cases "x = 0")
  case True
  then show ?thesis by (simp add: fl_def)
next
  case False
  then show ?thesis
    by (simp add: fl_quantum quantum_minus rne_minus)
qed

lemma pow2_split: "pow2 e = pow2 (e - 52) * 2 ^ 52"
proof -
  have "pow2 e = pow2 ((e - 52) + 52)" by simp
  also have "\<dots> = pow2 (e - 52) * pow2 52" by (rule pow2_add)
  finally show ?thesis by (simp add: pow2_def)
qed

lemma pow2_53: "pow2 53 = 2 ^ 53"
  by (simp add: pow2_def)

lemma fl_le_int:
  assumes r: "\<bar>r\<bar> \<le> 2 ^ 53" and xr: "x \<le> of_int r"
  shows "fl x \<le> of_int r"
proof (cases "x = 0")
  case True
  with xr show ?thesis by (simp add: fl_def)
next
  case False
  define e where "e = ilog2 \<bar>x\<bar>"
  define qe where "qe = max e (- 1022) - 52"
  define q where "q = quantum x"
  have q_def': "q = pow2 qe" by (simp add: q_def quantum_def qe_def e_def)
  have qpos: "0 < q" unfolding q_def by (rule quantum_pos)
  have flx: "fl x = q * of_int (rne (x / q))" unfolding q_def using False by (rule fl_quantum)
  have eb: "pow2 e \<le> \<bar>x\<bar>" using ilog2_bounds [of "\<bar>x\<bar>"] False by (simp add: e_def)
  show ?thesis
  proof (cases "qe \<le> 0")
    case True
    define N where "N = r * 2 ^ nat (- qe)"
    have "qe = - int (nat (- qe))" using True by simp
    then have "q = 1 / 2 ^ nat (- qe)" unfolding q_def' by (metis pow2_neg_nat)
    then have rq: "of_int r = q * of_int N" by (simp add: N_def)
    from xr qpos have "x / q \<le> of_int N" unfolding rq by (simp add: pos_divide_le_eq mult.commute)
    then have "rne (x / q) \<le> N" by (rule rne_le_int)
    then have "q * of_int (rne (x / q)) \<le> q * of_int N"
      using qpos by simp
    then show ?thesis unfolding flx rq .
  next
    case False
    then have e53: "53 \<le> e" and qe: "qe = e - 52" by (auto simp add: qe_def)
    then have "pow2 53 \<le> pow2 e" by (intro pow2_mono)
    with eb have big: "2 ^ 53 \<le> \<bar>x\<bar>" by (simp add: pow2_53)
    have pe: "pow2 e = q * 2 ^ 52" unfolding q_def' qe by (rule pow2_split)
    show ?thesis
    proof (cases "0 < x")
      case True
      from r have "of_int r \<le> (2::real) ^ 53"
        by (metis abs_le_D1 of_int_le_iff of_int_numeral of_int_power)
      with big True xr have x53: "x = 2 ^ 53" and r53: "of_int r = (2::real) ^ 53" by auto
      from eb True x53 have "pow2 e \<le> pow2 53" by (simp add: pow2_53)
      then have "e \<le> 53" using pow2_less_iff [of 53 e] by auto
      with e53 have "e = 53" by simp
      then have "q = 2" unfolding q_def' qe by (simp add: pow2_def)
      then have "x / q = of_int (2 ^ 52)" unfolding x53 by simp
      then have "rne (x / q) = 2 ^ 52" by (simp only: rne_of_int)
      then show ?thesis unfolding flx r53 \<open>q = 2\<close> by simp
    next
      case False
      with \<open>x \<noteq> 0\<close> have neg: "x < 0" by simp
      with eb pe have "x \<le> - (q * 2 ^ 52)" by simp
      then have "x / q \<le> - (2 ^ 52)" using qpos by (simp add: pos_divide_le_eq mult.commute)
      then have "x / q \<le> of_int (- (2 ^ 52))" by simp
      then have "rne (x / q) \<le> - (2 ^ 52)" by (rule rne_le_int)
      then have "of_int (rne (x / q)) \<le> - ((2::real) ^ 52)"
        by (metis of_int_le_iff of_int_minus of_int_numeral of_int_power)
      then have "q * of_int (rne (x / q)) \<le> q * (- (2 ^ 52))"
        using qpos by (rule mult_left_mono [OF _ less_imp_le])
      then have "fl x \<le> - pow2 e" unfolding flx pe by simp
      also have "\<dots> \<le> - (2 ^ 53)" using \<open>pow2 53 \<le> pow2 e\<close> by (simp add: pow2_53)
      also have "\<dots> \<le> of_int r"
        using r by (metis abs_le_D2 of_int_le_iff of_int_minus of_int_numeral of_int_power minus_le_iff)
      finally show ?thesis .
    qed
  qed
qed

lemma fl_ge_int:
  assumes r: "\<bar>r\<bar> \<le> 2 ^ 53" and xr: "of_int r \<le> x"
  shows "of_int r \<le> fl x"
proof -
  from r have "\<bar>- r\<bar> \<le> 2 ^ 53" by simp
  moreover from xr have "- x \<le> of_int (- r)" by simp
  ultimately have "fl (- x) \<le> of_int (- r)" by (rule fl_le_int)
  then show ?thesis by (simp add: fl_minus)
qed

lemma fl_of_int: "\<bar>r\<bar> \<le> 2 ^ 53 \<Longrightarrow> fl (of_int r) = of_int r"
  using fl_le_int [of r "of_int r"] fl_ge_int [of r "of_int r"] by simp

lemma pow2_split53: "pow2 (m + 1) = pow2 (m - 52) * 2 ^ 53"
proof -
  have "m + 1 = (m - 52) + 53" by simp
  then have "pow2 (m + 1) = pow2 ((m - 52) + 53)" by (rule arg_cong)
  also have "\<dots> = pow2 (m - 52) * pow2 53" by (rule pow2_add)
  finally show ?thesis by (simp add: pow2_def)
qed

lemma ilog2_mono:
  assumes "0 < x" "x \<le> y"
  shows "ilog2 x \<le> ilog2 y"
proof (rule ccontr)
  assume "\<not> ilog2 x \<le> ilog2 y"
  then have "ilog2 y + 1 \<le> ilog2 x" by simp
  then have "pow2 (ilog2 y + 1) \<le> pow2 (ilog2 x)" by (rule pow2_mono)
  also have "\<dots> \<le> x" using ilog2_bounds [OF assms(1)] by simp
  also have "\<dots> \<le> y" by (rule assms(2))
  also have "\<dots> < pow2 (ilog2 y + 1)" using ilog2_bounds [of y] assms by simp
  finally show False by simp
qed

lemma fl_mono_pos:
  assumes x: "0 < x" and xy: "x \<le> y"
  shows "fl x \<le> fl y"
proof -
  from x xy have y: "0 < y" by simp
  define mx where "mx = max (ilog2 x) (- 1022)"
  define my where "my = max (ilog2 y) (- 1022)"
  have qx: "quantum x = pow2 (mx - 52)" using x by (simp add: quantum_def mx_def)
  have qy: "quantum y = pow2 (my - 52)" using y by (simp add: quantum_def my_def)
  have flx: "fl x = pow2 (mx - 52) * of_int (rne (x / pow2 (mx - 52)))"
    using x fl_quantum [of x] by (simp add: qx)
  have fly: "fl y = pow2 (my - 52) * of_int (rne (y / pow2 (my - 52)))"
    using y fl_quantum [of y] by (simp add: qy)
  have le: "mx \<le> my" using ilog2_mono [OF x xy] by (simp add: mx_def my_def)
  show ?thesis
  proof (cases "mx = my")
    case True
    have "x / pow2 (my - 52) \<le> y / pow2 (my - 52)"
      using xy pow2_pos [of "my - 52"] by (simp add: divide_right_mono)
    then have "rne (x / pow2 (my - 52)) \<le> rne (y / pow2 (my - 52))" by (rule rne_mono)
    then show ?thesis unfolding flx fly True
      using pow2_pos [of "my - 52"] by simp
  next
    case False
    with le have lt: "mx < my" by simp
    then have my: "my = ilog2 y" by (auto simp add: my_def mx_def)
    have "x < pow2 (ilog2 x + 1)" using ilog2_bounds [OF x] by simp
    also have "\<dots> \<le> pow2 (mx + 1)" by (rule pow2_mono) (simp add: mx_def)
    also have "\<dots> = pow2 (mx - 52) * 2 ^ 53" by (rule pow2_split53)
    finally have "x / pow2 (mx - 52) \<le> 2 ^ 53"
      using pow2_pos [of "mx - 52"] by (simp add: pos_divide_le_eq mult.commute)
    then have "x / pow2 (mx - 52) \<le> of_int (2 ^ 53)" by simp
    then have "rne (x / pow2 (mx - 52)) \<le> 2 ^ 53" by (rule rne_le_int)
    then have "real_of_int (rne (x / pow2 (mx - 52))) \<le> 2 ^ 53"
      by (metis of_int_le_iff of_int_numeral of_int_power)
    then have "fl x \<le> pow2 (mx - 52) * 2 ^ 53"
      unfolding flx using pow2_pos [of "mx - 52"] by (intro mult_left_mono) simp_all
    also have "\<dots> = pow2 (mx + 1)" by (rule pow2_split53 [symmetric])
    also have "\<dots> \<le> pow2 my" using lt by (intro pow2_mono) simp
    finally have a: "fl x \<le> pow2 my" .
    have "pow2 my \<le> y" unfolding my using ilog2_bounds [OF y] by simp
    then have "pow2 (my - 52) * 2 ^ 52 \<le> y" using pow2_split [of my] by simp
    then have "2 ^ 52 \<le> y / pow2 (my - 52)"
      using pow2_pos [of "my - 52"] by (simp add: pos_le_divide_eq mult.commute)
    then have "of_int (2 ^ 52) \<le> y / pow2 (my - 52)" by simp
    then have "2 ^ 52 \<le> rne (y / pow2 (my - 52))" by (rule rne_ge_int)
    then have "2 ^ 52 \<le> real_of_int (rne (y / pow2 (my - 52)))"
      by (metis of_int_le_iff of_int_numeral of_int_power)
    then have "pow2 (my - 52) * 2 ^ 52 \<le> fl y"
      unfolding fly using pow2_pos [of "my - 52"] by (intro mult_left_mono) simp_all
    then have "pow2 my \<le> fl y" using pow2_split [of my] by simp
    with a show ?thesis by simp
  qed
qed

lemma fl_0: "fl 0 = 0"
  by (simp add: fl_def)

lemma fl_mono_nonneg: "0 \<le> x \<Longrightarrow> x \<le> y \<Longrightarrow> fl x \<le> fl y"
proof (cases "x = 0")
  case True
  assume "0 \<le> x" "x \<le> y"
  with True have "of_int 0 \<le> y" by simp
  then have "of_int 0 \<le> fl y" by (intro fl_ge_int) simp_all
  with True show ?thesis by (simp add: fl_0)
next
  case False
  assume "0 \<le> x" "x \<le> y"
  with False show ?thesis by (intro fl_mono_pos) simp_all
qed

text \<open>
  The rounding error is at most half a quantum, that is a relative error of at most
  \<open>2 ^ -53\<close> from 1 on; below \<open>2 ^ 63 - 512\<close> a value rounds to at most \<open>2 ^ 63 - 1024\<close>.
\<close>

lemma rne_err: "\<bar>of_int (rne z) - z\<bar> \<le> 1 / 2"
proof -
  define n where "n = \<lfloor>z\<rfloor>"
  define a where "a = z - of_int n"
  have a: "0 \<le> a" "a < 1" unfolding a_def n_def by linarith+
  have z: "z = of_int n + a" by (simp add: a_def)
  have r: "rne z = (if a < 1 / 2 then n else if 1 / 2 < a then n + 1
                     else if even n then n else n + 1)"
    unfolding rne_frac [of z] a_def n_def ..
  have "of_int (rne z) - z = (if a < 1 / 2 then - a else if 1 / 2 < a then 1 - a
                     else if even n then - a else 1 - a)"
    unfolding r by (simp add: a_def)
  then show ?thesis using a by (simp split: if_splits)
qed

lemma rne_below_half: "z < of_int n + 1 / 2 \<Longrightarrow> rne z \<le> n"
proof -
  assume h: "z < of_int n + 1 / 2"
  then have "z < of_int n + 1" by simp
  then have le: "\<lfloor>z\<rfloor> \<le> n" by (simp add: floor_le_iff)
  show ?thesis
  proof (cases "\<lfloor>z\<rfloor> = n")
    case True
    with h have "z - of_int \<lfloor>z\<rfloor> < 1 / 2" by simp
    then have "rne z = \<lfloor>z\<rfloor>" by (simp add: rne_frac)
    with True show ?thesis by simp
  next
    case False
    with le have "\<lfloor>z\<rfloor> + 1 \<le> n" by simp
    with rne_cases [of z] show ?thesis by auto
  qed
qed

lemma ilog2_eq:
  assumes "pow2 e \<le> x" "x < pow2 (e + 1)"
  shows "ilog2 x = e"
proof -
  from assms(1) pow2_pos [of e] have x: "0 < x" by simp
  note b = ilog2_bounds [OF x]
  from b assms(2) have "pow2 (ilog2 x) < pow2 (e + 1)" by simp
  then have "ilog2 x < e + 1" by (simp only: pow2_less_iff)
  moreover from b assms(1) have "pow2 e < pow2 (ilog2 x + 1)" by simp
  then have "e < ilog2 x + 1" by (simp only: pow2_less_iff)
  ultimately show ?thesis by simp
qed

lemma fl_rel:
  assumes "1 \<le> x"
  shows "\<bar>fl x - x\<bar> \<le> x / 2 ^ 53"
proof -
  from assms have x: "0 < x" "x \<noteq> 0" by simp_all
  note b = ilog2_bounds [OF x(1)]
  have "pow2 0 < pow2 (ilog2 x + 1)" using b assms by (simp add: pow2_def)
  then have "0 < ilog2 x + 1" by (simp only: pow2_less_iff)
  then have m: "max (ilog2 x) (- 1022) = ilog2 x" by simp
  define q where "q = quantum x"
  from x(1) have ax: "\<bar>x\<bar> = x" by simp
  have q: "q * 2 ^ 52 \<le> x" "0 < q"
    using b pow2_split [of "ilog2 x"] by (simp_all add: q_def quantum_def ax m pow2_pos)
  have "fl x - x = q * (of_int (rne (x / q)) - x / q)"
    using q(2) by (simp add: fl_quantum [OF x(2)] q_def [symmetric] algebra_simps)
  then have "\<bar>fl x - x\<bar> = q * \<bar>of_int (rne (x / q)) - x / q\<bar>"
    using q(2) by (simp add: abs_mult)
  also have "\<dots> \<le> q * (1 / 2)"
    using q(2) rne_err [of "x / q"] by (intro mult_left_mono) simp_all
  also have "\<dots> \<le> x / 2 ^ 53" using q(1) by simp
  finally show ?thesis .
qed

lemma fl_nonneg: "0 \<le> x \<Longrightarrow> 0 \<le> fl x"
  using fl_mono_nonneg [of 0 x] by (simp add: fl_0)

lemma fl_top_binade:
  assumes "2 ^ 62 \<le> z" "z < 2 ^ 63"
  shows "fl z = 1024 * of_int (rne (z / 1024))"
proof -
  have "pow2 62 \<le> z" "z < pow2 (62 + 1)" using assms by (simp_all add: pow2_def)
  then have "ilog2 z = 62" by (rule ilog2_eq)
  moreover from assms have "\<bar>z\<bar> = z" "z \<noteq> 0" by simp_all
  ultimately show ?thesis by (simp add: fl_def quantum_def pow2_def)
qed

lemma fl_top:
  assumes "0 \<le> z" "z < 2 ^ 63 - 512"
  shows "fl z \<le> 2 ^ 63 - 1024"
proof (cases "z < 2 ^ 62")
  case True
  with assms(1) have "fl z \<le> fl (2 ^ 62)" by (intro fl_mono_nonneg) simp_all
  also have "fl (2 ^ 62) = 1024 * of_int (rne (2 ^ 62 / 1024))"
    by (rule fl_top_binade) simp_all
  also have "(2::real) ^ 62 / 1024 = of_int (2 ^ 52)" by simp
  also have "1024 * real_of_int (rne (of_int (2 ^ 52))) \<le> 2 ^ 63 - 1024"
    by (simp only: rne_of_int) simp
  finally show ?thesis .
next
  case False
  with assms(2) have z: "2 ^ 62 \<le> z" "z < 2 ^ 63" by simp_all
  from assms(2) have "z / 1024 < of_int (2 ^ 53 - 1) + 1 / 2" by simp
  then have "rne (z / 1024) \<le> 2 ^ 53 - 1" by (rule rne_below_half)
  then have "real_of_int (rne (z / 1024)) \<le> real_of_int (2 ^ 53 - 1)"
    by (simp only: of_int_le_iff)
  then show ?thesis unfolding fl_top_binade [OF z] by simp
qed

lemma fl_one: "fl 1 = 1"
  using fl_of_int [of 1] by simp

lemma fl_rel_int:
  assumes "0 \<le> w"
  shows "0 \<le> fl (of_int w) \<and> fl (of_int w) \<le> of_int w + of_int w / 2 ^ 53 \<and>
         (fl (of_int w) = 0 \<or> 1 \<le> fl (of_int w))"
proof (cases "w = 0")
  case True
  then show ?thesis by (simp add: fl_0)
next
  case False
  with assms have w: "1 \<le> real_of_int w" by simp
  from fl_rel [OF w] have "fl (of_int w) \<le> of_int w + of_int w / 2 ^ 53" by linarith
  moreover from w have "fl 1 \<le> fl (of_int w)" by (intro fl_mono_nonneg) simp_all
  then have "1 \<le> fl (of_int w)" by (simp only: fl_one)
  ultimately show ?thesis by simp
qed

section \<open>The transition factor\<close>

lemma GetTransitionFactor_range: "0 \<le> GetTransitionFactor height \<and> GetTransitionFactor height \<le> 1"
proof (cases "NEW_RULES_ACTIVATION_HEIGHT \<le> height \<and>
    height < NEW_RULES_ACTIVATION_HEIGHT + TRANSITION_WINDOW")
  case False
  then show ?thesis by (auto simp add: GetTransitionFactor_def)
next
  case True
  define x where "x = real_of_int (height - NEW_RULES_ACTIVATION_HEIGHT) / real_of_int TRANSITION_WINDOW"
  from True have g: "GetTransitionFactor height = fl x"
    by (simp add: GetTransitionFactor_def x_def)
  from True have "0 \<le> x" "x \<le> 1"
    by (simp_all add: x_def TRANSITION_WINDOW_def)
  with fl_ge_int [of 0 x] fl_le_int [of 1 x] have "0 \<le> fl x" "fl x \<le> 1"
    by simp_all
  with g show ?thesis by simp
qed

text \<open>
  C6. \<open>GetTransitionFactor\<close> is 0 below the activation height 175000, 1 from
  175000 + 2000 on, and in between the double quotient of \<open>height - 175000\<close> by 2000;
  it lies in [0, 1] and is non-decreasing in the height.
\<close>

theorem C6_transition_factor:
  "NEW_RULES_ACTIVATION_HEIGHT = 175000 \<and> TRANSITION_WINDOW = 2000 \<and>
   (height < 175000 \<longrightarrow> GetTransitionFactor height = 0) \<and>
   (175000 + 2000 \<le> height \<longrightarrow> GetTransitionFactor height = 1) \<and>
   (175000 \<le> height \<and> height < 175000 + 2000 \<longrightarrow>
      GetTransitionFactor height = fl (of_int (height - 175000) / 2000)) \<and>
   0 \<le> GetTransitionFactor height \<and> GetTransitionFactor height \<le> 1 \<and>
   (height \<le> height' \<longrightarrow> GetTransitionFactor height \<le> GetTransitionFactor height')"
proof -
  have mono: "GetTransitionFactor height \<le> GetTransitionFactor height'" if le: "height \<le> height'"
  proof (cases "height < NEW_RULES_ACTIVATION_HEIGHT")
    case True
    then have "GetTransitionFactor height = 0" by (simp add: GetTransitionFactor_def)
    with GetTransitionFactor_range [of height'] show ?thesis by simp
  next
    case low: False
    show ?thesis
    proof (cases "height' \<ge> NEW_RULES_ACTIVATION_HEIGHT + TRANSITION_WINDOW")
      case True
      with le have "GetTransitionFactor height' = 1"
        by (simp add: GetTransitionFactor_def NEW_RULES_ACTIVATION_HEIGHT_def TRANSITION_WINDOW_def)
      with GetTransitionFactor_range [of height] show ?thesis by simp
    next
      case False
      with low le have mid: "GetTransitionFactor height =
            fl (of_int (height - NEW_RULES_ACTIVATION_HEIGHT) / of_int TRANSITION_WINDOW)"
          "GetTransitionFactor height' =
            fl (of_int (height' - NEW_RULES_ACTIVATION_HEIGHT) / of_int TRANSITION_WINDOW)"
        by (simp_all add: GetTransitionFactor_def)
      show ?thesis unfolding mid
        using low le by (intro fl_mono_nonneg) (simp_all add: TRANSITION_WINDOW_def divide_right_mono)
    qed
  qed
  show ?thesis
    using mono GetTransitionFactor_range [of height]
    by (simp add: GetTransitionFactor_def NEW_RULES_ACTIVATION_HEIGHT_def TRANSITION_WINDOW_def)
qed

theorem C6_transition_factor_witness:
  "GetTransitionFactor 174999 = 0 \<and> GetTransitionFactor 177000 = 1 \<and>
   GetTransitionFactor 175001 = fl (1 / 2000) \<and>
   fl (1 / 2000) = 1152921504606847 / 2305843009213693952 \<and>
   GetTransitionFactor 175001 \<le> GetTransitionFactor 176000"
proof -
  have v: "fl (1 / 2000) = 1152921504606847 / 2305843009213693952"
    by (simp add: fl_def quantum_def ilog2_def pow2_def rne_def bits.simps Let_def)
  have a: "GetTransitionFactor 174999 = 0"
    using C6_transition_factor [of 174999 174999] by simp
  have b: "GetTransitionFactor 177000 = 1"
    using C6_transition_factor [of 177000 177000] by simp
  have c: "GetTransitionFactor 175001 = fl (1 / 2000)"
    "GetTransitionFactor 175001 \<le> GetTransitionFactor 176000"
    using C6_transition_factor [of 175001 176000] by simp_all
  from a b c v show ?thesis by (simp only: simp_thms)
qed

section \<open>The difficulty limits\<close>

lemma int64_small: "\<bar>x\<bar> \<le> 2 ^ 53 \<Longrightarrow> int64 x = Some x"
  by (auto simp add: int64_def abs_le_iff)

lemma double_to_int64_between:
  assumes "\<bar>lo\<bar> \<le> 2 ^ 53" "\<bar>hi\<bar> \<le> 2 ^ 53" "of_int lo \<le> s" "s \<le> of_int hi"
  shows "\<exists>y. double_to_int64 s = Some y \<and> lo \<le> y \<and> y \<le> hi"
proof -
  define y where "y = (if 0 \<le> s then \<lfloor>s\<rfloor> else \<lceil>s\<rceil>)"
  have "lo \<le> \<lfloor>s\<rfloor>" "\<lfloor>s\<rfloor> \<le> hi" "lo \<le> \<lceil>s\<rceil>" "\<lceil>s\<rceil> \<le> hi"
    using assms(3,4) by (simp_all add: le_floor_iff floor_le_iff ceiling_le_iff le_ceiling_iff)
  then have b: "lo \<le> y" "y \<le> hi" by (simp_all add: y_def)
  with assms(1,2) have "\<bar>y\<bar> \<le> 2 ^ 53" by linarith
  then have "double_to_int64 s = Some y"
    unfolding double_to_int64_def y_def [symmetric] by (rule int64_small)
  with b show ?thesis by simp
qed

lemma interpolate_between:
  assumes x: "\<bar>x\<bar> \<le> 2 ^ 53" and t: "\<bar>t\<bar> \<le> 2 ^ 53" and d: "\<bar>t - x\<bar> \<le> 2 ^ 53"
    and f: "0 \<le> f" "f \<le> 1"
  shows "\<exists>y. interpolate x t f = Some y \<and> min x t \<le> y \<and> y \<le> max x t"
proof -
  define p where "p = fl (fl (of_int (t - x)) * f)"
  have fd: "fl (of_int (t - x)) = of_int (t - x)" using d by (rule fl_of_int)
  have fx: "fl (of_int x) = of_int x" using x by (rule fl_of_int)
  have i: "interpolate x t f = double_to_int64 (fl (of_int x + p))"
    by (simp add: interpolate_def int64_small [OF d] p_def fx)
  have lo: "\<bar>min x t\<bar> \<le> 2 ^ 53" and hi: "\<bar>max x t\<bar> \<le> 2 ^ 53"
    using x t by (simp_all add: min_def max_def)
  have pb: "of_int (min 0 (t - x)) \<le> p \<and> p \<le> of_int (max 0 (t - x))"
  proof (cases "0 \<le> t - x")
    case True
    then have "0 \<le> real_of_int (t - x)" by simp
    with f have "of_int 0 \<le> of_int (t - x) * f" "of_int (t - x) * f \<le> of_int (t - x)"
      by (simp_all add: mult_left_le)
    then have "of_int 0 \<le> p" "p \<le> of_int (t - x)"
      unfolding p_def fd using d by (simp_all add: fl_ge_int fl_le_int del: of_int_0 of_int_diff)
    with True show ?thesis by (simp add: min_def max_def)
  next
    case False
    then have neg: "real_of_int (t - x) \<le> 0" by simp
    from mult_left_mono_neg [OF f(2) neg] mult_nonpos_nonneg [OF neg f(1)]
    have "of_int (t - x) * f \<le> of_int 0" "of_int (t - x) \<le> of_int (t - x) * f"
      by simp_all
    then have "p \<le> of_int 0" "of_int (t - x) \<le> p"
      unfolding p_def fd using d by (simp_all add: fl_ge_int fl_le_int del: of_int_0 of_int_diff)
    with False show ?thesis by (simp add: min_def max_def)
  qed
  have "of_int (min x t) \<le> of_int x + p" "of_int x + p \<le> of_int (max x t)"
    using pb by (simp_all add: min_def max_def split: if_splits)
  then have "of_int (min x t) \<le> fl (of_int x + p)" "fl (of_int x + p) \<le> of_int (max x t)"
    using lo hi by (simp_all add: fl_ge_int fl_le_int del: of_int_min of_int_max)
  from double_to_int64_between [OF lo hi this] show ?thesis unfolding i .
qed

lemma interpolate_same: "\<bar>x\<bar> \<le> 2 ^ 53 \<Longrightarrow> interpolate x x f = Some x"
proof -
  assume x: "\<bar>x\<bar> \<le> 2 ^ 53"
  have "interpolate x x f = double_to_int64 (of_int x)"
    by (simp add: interpolate_def int64_def fl_0 fl_of_int [OF x])
  also have "\<dots> = Some x" using x by (simp add: double_to_int64_def int64_small)
  finally show ?thesis .
qed

lemma interpolate_zero:
  "\<bar>x\<bar> \<le> 2 ^ 53 \<Longrightarrow> int64 (t - x) = Some d \<Longrightarrow> interpolate x t 0 = Some x"
proof -
  assume x: "\<bar>x\<bar> \<le> 2 ^ 53" and d: "int64 (t - x) = Some d"
  have "interpolate x t 0 = double_to_int64 (of_int x)"
    by (simp add: interpolate_def d fl_0 fl_of_int [OF x])
  also have "\<dots> = Some x" using x by (simp add: double_to_int64_def int64_small)
  finally show ?thesis .
qed

lemma c_div_nonneg: "0 \<le> a \<Longrightarrow> 0 < b \<Longrightarrow> c_div a b = a div b"
  by (cases "a = 0") (simp_all add: c_div_def)

lemma c_div_abs_le: "0 < b \<Longrightarrow> \<bar>c_div a b\<bar> \<le> \<bar>a\<bar>"
proof -
  assume b: "0 < b"
  have nn: "0 \<le> \<bar>a\<bar> div b" using b by (simp add: pos_imp_zdiv_nonneg_iff)
  have "c_div a b = sgn a * (\<bar>a\<bar> div b)" using b by (simp add: c_div_def)
  then have "\<bar>c_div a b\<bar> = \<bar>sgn a\<bar> * (\<bar>a\<bar> div b)"
    using nn by (simp add: abs_mult)
  also have "\<dots> \<le> \<bar>a\<bar> div b" using nn by (cases "a = 0") (simp_all add: abs_sgn_eq)
  also have "\<dots> \<le> \<bar>a\<bar>" using zdiv_mono2 [of "\<bar>a\<bar>" 1 b] b by simp
  finally show ?thesis .
qed

lemma GetDifficultyLimits_zero:
  assumes T: "\<bar>nPowTargetTimespan params * 4\<bar> \<le> 2 ^ 53"
  shows "GetDifficultyLimits height 0 params
           = Some (c_div (nPowTargetTimespan params) 4, nPowTargetTimespan params * 4)"
proof -
  define T where "T = nPowTargetTimespan params"
  have T4: "\<bar>T * 4\<bar> \<le> 2 ^ 53" using T by (simp add: T_def)
  then have Tb: "\<bar>T\<bar> \<le> 2 ^ 51" by simp
  have q: "\<bar>c_div T 4\<bar> \<le> 2 ^ 53" "\<bar>c_div T 8\<bar> \<le> 2 ^ 53" "\<bar>c_div T 16\<bar> \<le> 2 ^ 53"
    using c_div_abs_le [of 4 T] c_div_abs_le [of 8 T] c_div_abs_le [of 16 T] Tb by simp_all
  have d: "\<And>t. \<bar>t\<bar> \<le> 2 ^ 53 \<Longrightarrow> int64 (t - c_div T 4) = Some (t - c_div T 4)"
    using q(1) by (auto simp add: int64_def abs_le_iff)
  have m: "\<And>t. \<bar>t\<bar> \<le> 2 ^ 53 \<Longrightarrow> interpolate (c_div T 4) t 0 = Some (c_div T 4)"
    using interpolate_zero [OF q(1) d] by simp
  show ?thesis
    unfolding GetDifficultyLimits_def T_def [symmetric]
    by (simp add: int64_small [OF T4] interpolate_same [OF T4] m [OF q(1)] m [OF q(2)]
        m [OF q(3)] Let_def)
qed

lemma GetDifficultyLimits_bounds:
  assumes T0: "0 \<le> nPowTargetTimespan params" and T: "nPowTargetTimespan params * 4 \<le> 2 ^ 53"
    and f: "0 \<le> f" "f \<le> 1"
  shows "\<exists>nMin. GetDifficultyLimits height f params = Some (nMin, nPowTargetTimespan params * 4)
           \<and> nPowTargetTimespan params div 16 \<le> nMin \<and> nMin \<le> nPowTargetTimespan params div 4"
proof -
  define T where "T = nPowTargetTimespan params"
  have T0': "0 \<le> T" and T4: "\<bar>T * 4\<bar> \<le> 2 ^ 53" using T0 T by (simp_all add: T_def)
  have cd: "c_div T 4 = T div 4" "c_div T 8 = T div 8" "c_div T 16 = T div 16"
    using T0' by (simp_all add: c_div_nonneg)
  have ord: "T div 16 \<le> T div 8" "T div 8 \<le> T div 4" "0 \<le> T div 16" "T div 4 \<le> T"
    using T0' by simp_all
  have step: "\<exists>y. interpolate (T div 4) t f = Some y \<and> T div 16 \<le> y \<and> y \<le> T div 4"
    if t: "T div 16 \<le> t" "t \<le> T div 4" for t
  proof -
    have b: "\<bar>T div 4\<bar> \<le> 2 ^ 53" "\<bar>t\<bar> \<le> 2 ^ 53" "\<bar>t - T div 4\<bar> \<le> 2 ^ 53"
      using t ord T4 T0' by simp_all
    have m: "min (T div 4) t = t" "max (T div 4) t = T div 4" using t by simp_all
    from interpolate_between [OF b f] obtain y
      where y: "interpolate (T div 4) t f = Some y" "t \<le> y" "y \<le> T div 4"
      unfolding m by blast
    from t(1) y(2) have "T div 16 \<le> y" by (rule order_trans)
    with y(1,3) show ?thesis by blast
  qed
  define a where "a = T div 4"
  define b where "b = T div 8"
  define d where "d = T div 16"
  have o3: "T div 16 \<le> T div 4" using ord(1,2) by (rule order_trans)
  from step [OF o3 order_refl] obtain y4
    where y4: "interpolate a a f = Some y4" "d \<le> y4" "y4 \<le> a"
    unfolding a_def d_def by blast
  from step [OF ord(1,2)] obtain y8
    where y8: "interpolate a b f = Some y8" "d \<le> y8" "y8 \<le> a"
    unfolding a_def b_def d_def by blast
  from step [OF order_refl o3] obtain y16
    where y16: "interpolate a d f = Some y16" "d \<le> y16" "y16 \<le> a"
    unfolding a_def d_def by blast
  have "\<exists>nMin. GetDifficultyLimits height f params = Some (nMin, T * 4) \<and> d \<le> nMin \<and> nMin \<le> a"
    unfolding GetDifficultyLimits_def T_def [symmetric] cd a_def [symmetric] b_def [symmetric]
      d_def [symmetric]
    using y4 y8 y16
    by (simp add: int64_small [OF T4] interpolate_same [OF T4] Let_def)
  then show ?thesis unfolding a_def d_def T_def .
qed

text \<open>
  Interpolation towards a smaller target above \<open>2 ^ 53\<close>, where the conversions round:
  the result is positive and not above the rounded start.
\<close>

lemma interpolate_big:
  assumes x: "2 ^ 49 \<le> x" "x < 2 ^ 59" and t: "2 ^ 47 \<le> t" "t \<le> x"
    and f: "0 \<le> f" "f \<le> 1"
  shows "\<exists>y. interpolate x t f = Some y \<and> 0 < y \<and> of_int y \<le> fl (fl (of_int x))"
proof -
  define X where "X = real_of_int x"
  define w where "w = real_of_int (x - t)"
  define A where "A = fl X"
  define W where "W = fl w"
  define p where "p = fl (fl (of_int (t - x)) * f)"
  define S where "S = A + p"
  have d: "int64 (t - x) = Some (t - x)" using x t by (simp add: int64_def)
  from x have "real_of_int (2 ^ 49) \<le> of_int x" "real_of_int x < of_int (2 ^ 59)"
    by (simp_all only: of_int_le_iff of_int_less_iff)
  then have Xb: "2 ^ 49 \<le> X" "X < 2 ^ 59" unfolding X_def by simp_all
  from t(1) have "real_of_int (2 ^ 47) \<le> of_int t" by (simp only: of_int_le_iff)
  then have wb: "w \<le> X - 2 ^ 47" unfolding w_def X_def by simp
  from Xb have "1 \<le> X" by simp
  from fl_rel [OF this] have Ab: "X - X / 2 ^ 53 \<le> A" "A \<le> X + X / 2 ^ 53"
    unfolding A_def by linarith+
  from t have "0 \<le> x - t" by simp
  from fl_rel_int [OF this]
  have Wb: "0 \<le> W" "W \<le> w + w / 2 ^ 53" "W = 0 \<or> 1 \<le> W"
    unfolding W_def w_def by simp_all
  have fW: "fl W \<le> W + W / 2 ^ 53"
  proof (cases "W = 0")
    case True
    then show ?thesis by (simp add: fl_0)
  next
    case False
    with Wb(3) have "1 \<le> W" by simp
    from fl_rel [OF this] show ?thesis by linarith
  qed
  have "real_of_int (t - x) = - w" by (simp add: w_def)
  then have fd: "fl (of_int (t - x)) = - W" by (simp only: fl_minus W_def)
  have Wf: "0 \<le> W * f" "W * f \<le> W"
    using Wb(1) f by (simp_all add: mult_left_le)
  have pm: "p = - fl (W * f)" unfolding p_def fd by (simp add: fl_minus)
  have "0 \<le> fl (W * f)" using Wf(1) by (rule fl_nonneg)
  moreover have "fl (W * f) \<le> fl W" using Wf by (rule fl_mono_nonneg)
  ultimately have pb: "- fl W \<le> p" "p \<le> 0" unfolding pm by simp_all
  have S1: "1 \<le> S" unfolding S_def using pb(1) fW Wb(2) Ab(1) wb Xb by simp
  have SA: "S \<le> A" unfolding S_def using pb(2) by simp
  from S1 have "fl 1 \<le> fl S" by (intro fl_mono_nonneg) simp_all
  then have s1: "1 \<le> fl S" by (simp only: fl_one)
  from S1 SA have sA: "fl S \<le> fl A" by (intro fl_mono_nonneg) simp_all
  from S1 SA have A0: "0 \<le> A" by simp
  from Ab(2) Xb(2) have "A < 2 ^ 63 - 512" by simp
  with A0 have "fl A \<le> 2 ^ 63 - 1024" by (rule fl_top)
  with sA have "fl S < 2 ^ 63" by simp
  then have "fl S < of_int (2 ^ 63)" by simp
  then have hi: "\<lfloor>fl S\<rfloor> < 2 ^ 63" by (simp only: floor_less_iff)
  from s1 have "of_int 1 \<le> fl S" by simp
  then have lo: "1 \<le> \<lfloor>fl S\<rfloor>" by (simp only: le_floor_iff)
  have "interpolate x t f = double_to_int64 (fl S)"
    by (simp add: interpolate_def d S_def A_def X_def p_def)
  also have "\<dots> = Some \<lfloor>fl S\<rfloor>"
    using s1 lo hi by (simp add: double_to_int64_def int64_def)
  finally have "interpolate x t f = Some \<lfloor>fl S\<rfloor>" .
  moreover have "of_int \<lfloor>fl S\<rfloor> \<le> fl (fl (of_int x))"
    using sA of_int_floor_le [of "fl S"] unfolding A_def X_def by linarith
  ultimately show ?thesis using lo by auto
qed

lemma interpolate_top:
  assumes "0 \<le> M" "M < 2 ^ 63 - 512"
  shows "interpolate M M f = Some \<lfloor>fl (fl (of_int M))\<rfloor>"
proof -
  from assms have m: "0 \<le> real_of_int M" "real_of_int M < 2 ^ 63 - 512" by simp_all
  from m(1) have a0: "0 \<le> fl (of_int M)" by (rule fl_nonneg)
  from m have "fl (of_int M) \<le> 2 ^ 63 - 1024" by (rule fl_top)
  then have "fl (of_int M) < 2 ^ 63 - 512" by simp
  with a0 have b: "fl (fl (of_int M)) \<le> 2 ^ 63 - 1024" by (rule fl_top)
  from a0 have b0: "0 \<le> fl (fl (of_int M))" by (rule fl_nonneg)
  then have lo: "0 \<le> \<lfloor>fl (fl (of_int M))\<rfloor>" by simp
  from b have "fl (fl (of_int M)) < of_int (2 ^ 63)" by simp
  then have hi: "\<lfloor>fl (fl (of_int M))\<rfloor> < 2 ^ 63" by (simp only: floor_less_iff)
  have "interpolate M M f = double_to_int64 (fl (fl (of_int M)))"
    by (simp add: interpolate_def int64_def fl_0)
  also have "\<dots> = Some \<lfloor>fl (fl (of_int M))\<rfloor>"
    using b0 lo hi by (simp add: double_to_int64_def int64_def)
  finally show ?thesis .
qed

lemma GetDifficultyLimits_legacy:
  assumes "0 \<le> nPowTargetTimespan params" "nPowTargetTimespan params * 4 < 2 ^ 63"
    and "height < NEW_RULES_ACTIVATION_HEIGHT"
  shows "GetDifficultyLimits height f params
           = Some (nPowTargetTimespan params div 4, nPowTargetTimespan params * 4)"
  using assms by (simp add: GetDifficultyLimits_def int64_def c_div_nonneg)

text \<open>
  From the activation height on, for a timespan whose fourfold is above \<open>2 ^ 53\<close> and
  rounds to a double below \<open>2 ^ 63\<close>.
\<close>

lemma GetDifficultyLimits_big:
  assumes T: "2 ^ 53 < nPowTargetTimespan params * 4"
      "nPowTargetTimespan params * 4 < 2 ^ 63 - 512"
    and f: "0 \<le> f" "f \<le> 1"
    and h: "\<not> height < NEW_RULES_ACTIVATION_HEIGHT"
  shows "\<exists>nMin nMax. GetDifficultyLimits height f params = Some (nMin, nMax)
           \<and> 0 < nMin \<and> nMin \<le> nMax"
proof -
  define T where "T = nPowTargetTimespan params"
  define M where "M = T * 4"
  define a where "a = T div 4"
  define b where "b = T div 8"
  define d where "d = T div 16"
  define tm where "tm = (if height > NEW_RULES_ACTIVATION_HEIGHT + 10000 then a
                         else if height > NEW_RULES_ACTIVATION_HEIGHT + 5000 then b else d)"
  from T have Tb: "2 ^ 51 < T" "T < 2 ^ 61" by (simp_all add: T_def)
  then have T0: "0 \<le> T" by simp
  have cd: "c_div T 4 = a" "c_div T 8 = b" "c_div T 16 = d"
    using T0 by (simp_all add: c_div_nonneg a_def b_def d_def)
  have ab: "2 ^ 49 \<le> a" "a < 2 ^ 59" using Tb by (simp_all add: a_def)
  have bb: "2 ^ 47 \<le> b" "b \<le> a" using Tb by (simp_all add: a_def b_def)
  have db: "2 ^ 47 \<le> d" "d \<le> a" using Tb by (simp_all add: a_def d_def)
  from ab(1) have aa: "2 ^ 47 \<le> a" by simp
  have tb: "2 ^ 47 \<le> tm" "tm \<le> a" using aa bb db by (simp_all add: tm_def)
  have aT: "a \<le> T" using T0 by (simp add: a_def)
  have Mb: "0 \<le> M" "M < 2 ^ 63 - 512" "a \<le> M" using T Tb aT by (simp_all add: M_def T_def)
  have i64: "int64 M = Some M" using Mb by (simp add: int64_def)
  have G: "GetDifficultyLimits height f params =
      interpolate a tm f \<bind> (\<lambda>m. interpolate M M f \<bind> (\<lambda>x. Some (m, x)))"
    unfolding GetDifficultyLimits_def T_def [symmetric] M_def [symmetric] cd tm_def [symmetric]
    using h by (simp add: i64 Let_def)
  from interpolate_big [OF ab tb f] obtain y
    where y: "interpolate a tm f = Some y" "0 < y" "of_int y \<le> fl (fl (of_int a))"
    by blast
  note top = interpolate_top [OF Mb(1,2), of f]
  from ab(1) have a0: "0 \<le> real_of_int a" by simp
  from Mb(3) have aM: "real_of_int a \<le> of_int M" by (simp only: of_int_le_iff)
  from a0 aM have "fl (of_int a) \<le> fl (of_int M)" by (rule fl_mono_nonneg)
  moreover from a0 have "0 \<le> fl (of_int a)" by (rule fl_nonneg)
  ultimately have "fl (fl (of_int a)) \<le> fl (fl (of_int M))" by (rule fl_mono_nonneg [rotated])
  with y(3) have "of_int y \<le> fl (fl (of_int M))" by simp
  then have "y \<le> \<lfloor>fl (fl (of_int M))\<rfloor>" by (simp only: le_floor_iff)
  with y(1,2) top show ?thesis unfolding G by simp
qed

text \<open>
  C7 (amended). At the activation height the transition factor is 0, and with that factor
  \<open>GetDifficultyLimits\<close> returns the legacy limits (timespan / 4, timespan * 4) for
  every parameter set whose timespan * 4 is at most \<open>2 ^ 53\<close> in magnitude, the range
  in which every \<open>int64_t\<close> is a double.
\<close>

theorem C7_limits_at_activation:
  "GetTransitionFactor NEW_RULES_ACTIVATION_HEIGHT = 0 \<and>
   (\<bar>nPowTargetTimespan params * 4\<bar> \<le> 2 ^ 53 \<longrightarrow>
      GetDifficultyLimits NEW_RULES_ACTIVATION_HEIGHT
        (GetTransitionFactor NEW_RULES_ACTIVATION_HEIGHT) params
      = Some (c_div (nPowTargetTimespan params) 4, nPowTargetTimespan params * 4))"
proof -
  have z: "GetTransitionFactor NEW_RULES_ACTIVATION_HEIGHT = 0"
    by (simp add: GetTransitionFactor_def TRANSITION_WINDOW_def fl_0)
  show ?thesis unfolding z using GetDifficultyLimits_zero by simp
qed

theorem C7_limits_at_activation_witness:
  "\<bar>nPowTargetTimespan (sample_params False) * 4\<bar> \<le> 2 ^ 53 \<and>
   GetTransitionFactor 175000 = 0 \<and>
   GetDifficultyLimits 175000 0 (sample_params False) = Some (21600, 345600)"
proof -
  have b: "\<bar>nPowTargetTimespan (sample_params False) * 4\<bar> \<le> 2 ^ 53" by simp
  note t = C7_limits_at_activation [of "sample_params False"]
  have z: "GetTransitionFactor NEW_RULES_ACTIVATION_HEIGHT = 0"
    by (rule conjunct1 [OF t])
  have l: "GetDifficultyLimits NEW_RULES_ACTIVATION_HEIGHT
        (GetTransitionFactor NEW_RULES_ACTIVATION_HEIGHT) (sample_params False)
      = Some (c_div (nPowTargetTimespan (sample_params False)) 4,
          nPowTargetTimespan (sample_params False) * 4)"
    by (rule mp [OF conjunct2 [OF t] b])
  from l have "GetDifficultyLimits NEW_RULES_ACTIVATION_HEIGHT 0 (sample_params False)
      = Some (21600, 345600)"
    unfolding z by (simp add: c_div_def)
  with z b show ?thesis by (simp add: NEW_RULES_ACTIVATION_HEIGHT_def)
qed

text \<open>
  With a timespan of \<open>2 ^ 53 + 1\<close> seconds the maximum comes back as \<open>2 ^ 55\<close>, not
  as timespan * 4 = \<open>2 ^ 55 + 4\<close>: the conversion to double rounds it.
\<close>

theorem C7_counterexample:
  "GetTransitionFactor 175000 = 0 \<and>
   GetDifficultyLimits 175000 0
     \<lparr>powLimit = 2 ^ 236 - 1, nPowTargetSpacing = 60, nPowTargetTimespan = 2 ^ 53 + 1,
      fPowAllowMinDifficultyBlocks = False, fPowNoRetargeting = False\<rparr>
     = Some (2 ^ 51, 2 ^ 55) \<and>
   c_div (2 ^ 53 + 1) 4 = 2 ^ 51 \<and> (2 ^ 53 + 1) * 4 = (2 ^ 55 + 4 :: int)"
  by (simp add: GetTransitionFactor_def GetDifficultyLimits_def interpolate_def int64_def
      c_div_def double_to_int64_def NEW_RULES_ACTIVATION_HEIGHT_def TRANSITION_WINDOW_def
      fl_def quantum_def ilog2_def pow2_def rne_def bits.simps Let_def)

text \<open>
  C8 (amended). For every height, every transition factor in \<open>[0, 1]\<close> and every
  parameter set with a target timespan of at least 16 seconds whose fourfold is below
  \<open>2 ^ 63\<close> under the activation height, and below \<open>2 ^ 63 - 512\<close> from the activation
  height on, \<open>GetDifficultyLimits\<close> produces a pair with
  \<open>nMaxTimespan \<ge> nMinTimespan > 0\<close>.
\<close>

theorem C8_limits_ordered:
  assumes "16 \<le> nPowTargetTimespan params"
    and "nPowTargetTimespan params * 4
           < (if height < NEW_RULES_ACTIVATION_HEIGHT then 2 ^ 63 else 2 ^ 63 - 512)"
    and "0 \<le> transitionFactor" and "transitionFactor \<le> 1"
  shows "\<exists>nMinTimespan nMaxTimespan.
           GetDifficultyLimits height transitionFactor params = Some (nMinTimespan, nMaxTimespan)
           \<and> 0 < nMinTimespan \<and> nMinTimespan \<le> nMaxTimespan"
proof -
  from assms(1) have T0: "0 \<le> nPowTargetTimespan params" by simp
  from assms(1) have q: "0 < nPowTargetTimespan params div 4"
    "nPowTargetTimespan params div 4 \<le> nPowTargetTimespan params * 4" by simp_all
  show ?thesis
  proof (cases "height < NEW_RULES_ACTIVATION_HEIGHT")
    case True
    with assms(2) have "nPowTargetTimespan params * 4 < 2 ^ 63" by simp
    from GetDifficultyLimits_legacy [OF T0 this True] q show ?thesis by simp
  next
    case False
    with assms(2) have top: "nPowTargetTimespan params * 4 < 2 ^ 63 - 512" by simp
    show ?thesis
    proof (cases "nPowTargetTimespan params * 4 \<le> 2 ^ 53")
      case True
      from GetDifficultyLimits_bounds [OF T0 True assms(3,4), of height]
      obtain nMin where n: "GetDifficultyLimits height transitionFactor params
            = Some (nMin, nPowTargetTimespan params * 4)"
          "nPowTargetTimespan params div 16 \<le> nMin" "nMin \<le> nPowTargetTimespan params div 4"
        by auto
      from assms(1) have "1 \<le> nPowTargetTimespan params div 16" by simp
      with n(2) have "0 < nMin" by simp
      moreover from n(3) q(2) have "nMin \<le> nPowTargetTimespan params * 4" by simp
      ultimately show ?thesis using n(1) by simp
    next
      case big: False
      then have "2 ^ 53 < nPowTargetTimespan params * 4" by simp
      from GetDifficultyLimits_big [OF this top assms(3,4) False] show ?thesis .
    qed
  qed
qed

theorem C8_limits_ordered_witness:
  "16 \<le> nPowTargetTimespan (chain_params (2 ^ 236 - 1) 60 (2 ^ 60) False) \<and>
   nPowTargetTimespan (chain_params (2 ^ 236 - 1) 60 (2 ^ 60) False) * 4
     < (if 176000 < NEW_RULES_ACTIVATION_HEIGHT then 2 ^ 63 else 2 ^ 63 - 512) \<and>
   (0::real) \<le> 1 / 2 \<and> (1::real) / 2 \<le> 1 \<and>
   (\<exists>nMinTimespan nMaxTimespan.
      GetDifficultyLimits 176000 (1 / 2) (chain_params (2 ^ 236 - 1) 60 (2 ^ 60) False)
        = Some (nMinTimespan, nMaxTimespan)
      \<and> 0 < nMinTimespan \<and> nMinTimespan \<le> nMaxTimespan)"
proof -
  have a: "16 \<le> nPowTargetTimespan (chain_params (2 ^ 236 - 1) 60 (2 ^ 60) False)" by simp
  have b: "nPowTargetTimespan (chain_params (2 ^ 236 - 1) 60 (2 ^ 60) False) * 4
     < (if 176000 < NEW_RULES_ACTIVATION_HEIGHT then 2 ^ 63 else 2 ^ 63 - 512)"
    by (simp add: NEW_RULES_ACTIVATION_HEIGHT_def)
  have c: "(0::real) \<le> 1 / 2" "(1::real) / 2 \<le> 1" by simp_all
  note C8_limits_ordered [OF a b c]
  with a b c show ?thesis by blast
qed

lemma limits_small_overflow:
  "GetDifficultyLimits 0 0
     \<lparr>powLimit = 2 ^ 236 - 1, nPowTargetSpacing = 1, nPowTargetTimespan = 1,
      fPowAllowMinDifficultyBlocks = False, fPowNoRetargeting = False\<rparr> = Some (0, 4) \<and>
   GetDifficultyLimits 177000 1
     \<lparr>powLimit = 2 ^ 236 - 1, nPowTargetSpacing = 1, nPowTargetTimespan = 15,
      fPowAllowMinDifficultyBlocks = False, fPowNoRetargeting = False\<rparr> = Some (0, 60) \<and>
   GetDifficultyLimits 0 0
     \<lparr>powLimit = 2 ^ 236 - 1, nPowTargetSpacing = 1, nPowTargetTimespan = 2 ^ 61,
      fPowAllowMinDifficultyBlocks = False, fPowNoRetargeting = False\<rparr> = None"
  by (simp add: GetDifficultyLimits_def interpolate_def int64_def
      c_div_def double_to_int64_def NEW_RULES_ACTIVATION_HEIGHT_def
      fl_def quantum_def ilog2_def pow2_def rne_def bits.simps Let_def)

lemma limits_round_up:
  "GetDifficultyLimits 175000 0 (chain_params (2 ^ 236 - 1) 60 (2 ^ 61 - 128) False) = None"
  by (simp add: GetDifficultyLimits_def interpolate_def int64_def
      c_div_def double_to_int64_def NEW_RULES_ACTIVATION_HEIGHT_def
      fl_def quantum_def ilog2_def pow2_def rne_def bits.simps Let_def)

text \<open>
  The minimum is not positive for a small timespan (a timespan of 1 below the
  activation height, a timespan of 15 in the sixteenth tier at full weight). A timespan
  of \<open>2 ^ 61\<close> overflows timespan * 4. From the activation height on a timespan of
  \<open>2 ^ 61 - 128\<close> has no pair either: its fourfold \<open>2 ^ 63 - 512\<close> is a tie that
  rounds to the double \<open>2 ^ 63\<close>, which is outside \<open>int64_t\<close>.
\<close>

theorem C8_counterexample:
  "GetDifficultyLimits 0 0
     \<lparr>powLimit = 2 ^ 236 - 1, nPowTargetSpacing = 1, nPowTargetTimespan = 1,
      fPowAllowMinDifficultyBlocks = False, fPowNoRetargeting = False\<rparr> = Some (0, 4) \<and>
   GetDifficultyLimits 177000 1
     \<lparr>powLimit = 2 ^ 236 - 1, nPowTargetSpacing = 1, nPowTargetTimespan = 15,
      fPowAllowMinDifficultyBlocks = False, fPowNoRetargeting = False\<rparr> = Some (0, 60) \<and>
   GetDifficultyLimits 0 0
     \<lparr>powLimit = 2 ^ 236 - 1, nPowTargetSpacing = 1, nPowTargetTimespan = 2 ^ 61,
      fPowAllowMinDifficultyBlocks = False, fPowNoRetargeting = False\<rparr> = None \<and>
   GetDifficultyLimits 175000 0 (chain_params (2 ^ 236 - 1) 60 (2 ^ 61 - 128) False) = None"
  using limits_small_overflow limits_round_up by blast

section \<open>The round trip through the compact form\<close>

lemma bits_0: "bits 0 = 0"
  by (simp add: bits.simps)

lemma bits_le_iff: "bits v \<le> k \<longleftrightarrow> v < 2 ^ k"
proof (cases "v = 0")
  case True
  then show ?thesis by (simp add: bits_0)
next
  case False
  then have v: "0 < v" by simp
  from bits_bounds [OF v] have b: "2 ^ (bits v - 1) \<le> v" "v < 2 ^ bits v" by auto
  show ?thesis
  proof
    assume "bits v \<le> k"
    then have "(2::nat) ^ bits v \<le> 2 ^ k" by (rule power_increasing) simp
    with b(2) show "v < 2 ^ k" by (rule less_le_trans)
  next
    assume "v < 2 ^ k"
    with b(1) have "(2::nat) ^ (bits v - 1) < 2 ^ k" by (rule le_less_trans)
    then have "bits v - 1 < k" by (simp only: power_strict_increasing_iff one_less_numeral_iff semiring_norm)
    then show "bits v \<le> k" by simp
  qed
qed

lemma bits_mono: "u \<le> v \<Longrightarrow> bits u \<le> bits v"
proof -
  assume "u \<le> v"
  moreover have "v < 2 ^ bits v" using bits_le_iff [of v "bits v"] by simp
  ultimately have "u < 2 ^ bits v" by simp
  then show ?thesis by (simp add: bits_le_iff)
qed

lemma less_bits: "v < 2 ^ bits v"
  using bits_le_iff [of v "bits v"] by simp

lemma bits_lower: "0 < v \<Longrightarrow> 2 ^ (bits v - 1) \<le> v"
  using bits_bounds by simp

lemma bits_ge_iff: "0 < k \<Longrightarrow> k \<le> bits v \<longleftrightarrow> 2 ^ (k - 1) \<le> v"
  using bits_le_iff [of v "k - 1"] by auto

text \<open>The mantissa window of \<open>GetCompact\<close> is below \<open>2 ^ 24\<close>, so the reductions modulo
  \<open>2 ^ 32\<close> change nothing and bit 23 is set exactly from \<open>2 ^ 23\<close> on.\<close>

lemma window_small:
  assumes n: "n = (bits v + 7) div 8" and le: "n \<le> 3"
  shows "v * 2 ^ (8 * (3 - n)) < 2 ^ 24"
proof -
  have "bits v \<le> 8 * n" unfolding n by presburger
  then have "v < 2 ^ (8 * n)" by (simp add: bits_le_iff)
  then have "v * 2 ^ (8 * (3 - n)) < 2 ^ (8 * n) * 2 ^ (8 * (3 - n))" by simp
  also have "\<dots> = 2 ^ (8 * n + 8 * (3 - n))" by (simp add: power_add)
  also have "8 * n + 8 * (3 - n) = 24" using le by simp
  finally show ?thesis .
qed

lemma window_big:
  assumes n: "n = (bits v + 7) div 8" and gt: "3 < n"
  shows "v div 2 ^ (8 * (n - 3)) < 2 ^ 24"
proof -
  have "bits v \<le> 8 * n" unfolding n by presburger
  then have "v < 2 ^ (8 * n)" by (simp add: bits_le_iff)
  also have "8 * n = 24 + 8 * (n - 3)" using gt by simp
  finally have "v < 2 ^ 24 * 2 ^ (8 * (n - 3))" by (simp add: power_add)
  then show ?thesis by (simp add: less_mult_imp_div_less)
qed

lemma bit23: "c < 2 ^ 24 \<Longrightarrow> (c div 2 ^ 23) mod 2 = 1 \<longleftrightarrow> (2::nat) ^ 23 \<le> c"
proof -
  assume c: "c < (2::nat) ^ 24"
  then have "c div 2 ^ 23 < 2" by (simp add: less_mult_imp_div_less)
  moreover have "2 ^ 23 \<le> c \<longleftrightarrow> 1 \<le> c div 2 ^ 23"
    by (simp add: Suc_le_eq div_greater_zero_iff)
  ultimately show ?thesis by auto
qed

lemma window_less: "window v < 2 ^ 24"
proof (cases "(bits v + 7) div 8 \<le> 3")
  case True
  then have "window v = v * 2 ^ (8 * (3 - (bits v + 7) div 8))"
    by (simp add: window_def)
  with window_small [OF refl True] show ?thesis by simp
next
  case False
  then have gt: "3 < (bits v + 7) div 8" by simp
  from False have "window v = v div 2 ^ (8 * ((bits v + 7) div 8 - 3))"
    by (simp add: window_def)
  with window_big [OF refl gt] show ?thesis by simp
qed

lemma GetCompact_window:
  "GetCompact v =
     (if 2 ^ 23 \<le> window v then window v div 2 ^ 8 + ((bits v + 7) div 8 + 1) * 2 ^ 24
      else window v + (bits v + 7) div 8 * 2 ^ 24)"
proof -
  define n where "n = (bits v + 7) div 8"
  define w where "w = window v"
  have wl: "w < 2 ^ 24" unfolding w_def by (rule window_less)
  then have w32: "w mod 2 ^ 32 = w" by simp
  have c: "(if n \<le> 3 then (v * 2 ^ (8 * (3 - n))) mod 2 ^ 32
            else (v div 2 ^ (8 * (n - 3))) mod 2 ^ 32) = w"
  proof (cases "n \<le> 3")
    case True
    then have "w = v * 2 ^ (8 * (3 - n))" by (simp add: w_def window_def n_def)
    with w32 True show ?thesis by simp
  next
    case False
    then have "w = v div 2 ^ (8 * (n - 3))" by (simp add: w_def window_def n_def)
    with w32 False show ?thesis by simp
  qed
  have "GetCompact v = (if (w div 2 ^ 23) mod 2 = 1
         then w div 2 ^ 8 + (n + 1) * 2 ^ 24 else w + n * 2 ^ 24)"
    unfolding GetCompact_def Let_def n_def [symmetric] c ..
  also have "\<dots> = (if 2 ^ 23 \<le> w then w div 2 ^ 8 + (n + 1) * 2 ^ 24 else w + n * 2 ^ 24)"
    using bit23 [OF wl] by simp
  finally show ?thesis unfolding w_def n_def .
qed

lemma SetCompact_fst:
  assumes m: "m < 2 ^ 23"
  shows "fst (SetCompact (m + s * 2 ^ 24)) =
           (if s \<le> 3 then m div 2 ^ (8 * (3 - s)) else (m * 2 ^ (8 * (s - 3))) mod 2 ^ 256)"
proof -
  from m have m24: "m < 2 ^ 24" by simp
  have d: "(m + s * 2 ^ 24) div 2 ^ 24 = s" using m24 by (simp only: div_mult_self1 power_not_zero div_less zero_neq_numeral not_False_eq_True add_0 flip: add.commute)
  have "s * (2::nat) ^ 24 = 2 ^ 23 * (2 * s)" by simp
  then have "(m + s * 2 ^ 24) mod 2 ^ 23 = (m + 2 ^ 23 * (2 * s)) mod 2 ^ 23" by (rule arg_cong)
  also have "\<dots> = m mod 2 ^ 23" by (rule mod_mult_self2)
  also have "\<dots> = m" using m by (rule mod_less)
  finally have w: "(m + s * 2 ^ 24) mod 2 ^ 23 = m" .
  show ?thesis unfolding SetCompact_def Let_def d w by simp
qed

lemma bits_le_8n: "bits v \<le> 8 * ((bits v + 7) div 8)"
  by presburger

lemma window_top:
  "2 ^ 23 \<le> window v \<longleftrightarrow> 0 < v \<and> bits v = 8 * ((bits v + 7) div 8)"
proof (cases "v = 0")
  case True
  then show ?thesis by (simp add: window_def bits_0)
next
  case False
  define n where "n = (bits v + 7) div 8"
  from False have v: "0 < v" by simp
  then have "0 < bits v" by (rule bits_pos)
  then have n1: "1 \<le> n" unfolding n_def by presburger
  have up: "bits v \<le> 8 * n" unfolding n_def by (rule bits_le_8n)
  have top: "2 ^ (8 * n - 1) \<le> v \<longleftrightarrow> bits v = 8 * n"
    using bits_ge_iff [of "8 * n" v] n1 up by auto
  have "2 ^ 23 \<le> window v \<longleftrightarrow> 2 ^ (8 * n - 1) \<le> v"
  proof (cases "n \<le> 3")
    case True
    then have w: "window v = v * 2 ^ (8 * (3 - n))" by (simp add: window_def n_def)
    have "8 * n - 1 + 8 * (3 - n) = 23" using True n1 by simp
    then have e: "(2::nat) ^ 23 = 2 ^ (8 * n - 1) * 2 ^ (8 * (3 - n))"
      by (simp only: power_add [symmetric])
    have "2 ^ (8 * n - 1) * 2 ^ (8 * (3 - n)) \<le> v * 2 ^ (8 * (3 - n)) \<longleftrightarrow> 2 ^ (8 * n - 1) \<le> v"
      by simp
    then show ?thesis unfolding w e .
  next
    case False
    then have w: "window v = v div 2 ^ (8 * (n - 3))" by (simp add: window_def n_def)
    have "23 + 8 * (n - 3) = 8 * n - 1" using False by simp
    then have e: "(2::nat) ^ 23 * 2 ^ (8 * (n - 3)) = 2 ^ (8 * n - 1)"
      by (simp only: power_add [symmetric])
    have "2 ^ 23 \<le> v div 2 ^ (8 * (n - 3)) \<longleftrightarrow> 2 ^ 23 * 2 ^ (8 * (n - 3)) \<le> v"
      by (rule less_eq_div_iff_mult_less_eq) simp
    then show ?thesis unfolding w e .
  qed
  with top v show ?thesis unfolding n_def by simp
qed

lemma div8_exact: "(b::nat) = 8 * ((b + 7) div 8) \<Longrightarrow> b div 8 = (b + 7) div 8"
  by arith

lemma div8_inexact: "(b::nat) \<noteq> 8 * ((b + 7) div 8) \<Longrightarrow> b div 8 - 2 = (b + 7) div 8 - 3"
  by arith

lemma compact_shift_cases:
  "compact_shift v =
     (if 2 ^ 23 \<le> window v then 8 * ((bits v + 7) div 8 - 2) else 8 * ((bits v + 7) div 8 - 3))"
proof (cases "2 ^ 23 \<le> window v")
  case True
  from True [unfolded window_top] have "bits v = 8 * ((bits v + 7) div 8)" ..
  then have "bits v div 8 = (bits v + 7) div 8" by (rule div8_exact)
  then have "compact_shift v = 8 * ((bits v + 7) div 8 - 2)"
    unfolding compact_shift_def by (rule arg_cong)
  with True show ?thesis by (simp only: if_True)
next
  case False
  have "bits v div 8 - 2 = (bits v + 7) div 8 - 3"
  proof (cases "v = 0")
    case True
    then show ?thesis by (simp add: bits_0)
  next
    case v: False
    with False [unfolded window_top] have "bits v \<noteq> 8 * ((bits v + 7) div 8)" by blast
    then show ?thesis by (rule div8_inexact)
  qed
  then have "compact_shift v = 8 * ((bits v + 7) div 8 - 3)"
    unfolding compact_shift_def by (rule arg_cong)
  with False show ?thesis by (simp only: if_False)
qed

lemma round_down_mod: "v < 2 ^ 256 \<Longrightarrow> (v div d * d) mod 2 ^ 256 = v div d * (d::nat)"
proof -
  assume "v < 2 ^ 256"
  moreover have "v div d * d \<le> v" by (rule div_times_less_eq_dividend)
  ultimately have "v div d * d < 2 ^ 256" by (rule le_less_trans [rotated])
  then show ?thesis by (rule mod_less)
qed

lemma round_trip_eq:
  assumes v: "v < 2 ^ 256"
  shows "fst (SetCompact (GetCompact v))
           = v div 2 ^ compact_shift v * 2 ^ compact_shift v"
proof -
  define n where "n = (bits v + 7) div 8"
  define w where "w = window v"
  have wl: "w < 2 ^ 24" unfolding w_def by (rule window_less)
  have wsmall: "w = v * 2 ^ (8 * (3 - n))" if "n \<le> 3"
    using that by (simp add: w_def window_def n_def)
  have wbig: "w = v div 2 ^ (8 * (n - 3))" if "3 < n"
    using that by (simp add: w_def window_def n_def)
  show ?thesis
  proof (cases "2 ^ 23 \<le> w")
    case False
    then have w23: "w < 2 ^ 23" by simp
    have g: "GetCompact v = w + n * 2 ^ 24"
      using False unfolding GetCompact_window w_def n_def by (simp only: if_False)
    have cs: "compact_shift v = 8 * (n - 3)"
      using False unfolding compact_shift_cases w_def n_def by (simp only: if_False)
    have d: "fst (SetCompact (GetCompact v)) =
        (if n \<le> 3 then w div 2 ^ (8 * (3 - n)) else (w * 2 ^ (8 * (n - 3))) mod 2 ^ 256)"
      unfolding g by (rule SetCompact_fst [OF w23])
    show ?thesis
    proof (cases "n \<le> 3")
      case True
      then have "fst (SetCompact (GetCompact v)) = v" unfolding d by (simp add: wsmall)
      moreover from True have "compact_shift v = 0" unfolding cs by simp
      ultimately show ?thesis by simp
    next
      case False
      then have gt: "3 < n" by simp
      from False have "fst (SetCompact (GetCompact v))
          = (v div 2 ^ (8 * (n - 3)) * 2 ^ (8 * (n - 3))) mod 2 ^ 256"
        unfolding d wbig [OF gt] by (simp only: if_False)
      also have "\<dots> = v div 2 ^ (8 * (n - 3)) * 2 ^ (8 * (n - 3))"
        using v by (rule round_down_mod)
      finally show ?thesis unfolding cs .
    qed
  next
    case True
    define m where "m = w div 2 ^ 8"
    have "w < 2 ^ 16 * 2 ^ 8" using wl by simp
    then have "m < 2 ^ 16" unfolding m_def by (rule less_mult_imp_div_less)
    then have m23: "m < 2 ^ 23" by simp
    have g: "GetCompact v = m + (n + 1) * 2 ^ 24"
      using True unfolding GetCompact_window w_def n_def m_def by (simp only: if_True)
    have cs: "compact_shift v = 8 * (n - 2)"
      using True unfolding compact_shift_cases w_def n_def by (simp only: if_True)
    have d: "fst (SetCompact (GetCompact v)) =
        (if n + 1 \<le> 3 then m div 2 ^ (8 * (3 - (n + 1)))
         else (m * 2 ^ (8 * (n + 1 - 3))) mod 2 ^ 256)"
      unfolding g by (rule SetCompact_fst [OF m23])
    show ?thesis
    proof (cases "n \<le> 2")
      case True
      then have n3: "n \<le> 3" by simp
      from True have "8 * (3 - n) = 8 * (2 - n) + 8" by simp
      then have "w = v * 2 ^ (8 * (2 - n)) * 2 ^ 8"
        unfolding wsmall [OF n3] by (simp only: power_add mult.assoc)
      then have "m = v * 2 ^ (8 * (2 - n))" unfolding m_def by simp
      moreover from True have "8 * (3 - (n + 1)) = 8 * (2 - n)" by simp
      ultimately have "fst (SetCompact (GetCompact v)) = v"
        unfolding d using True by simp
      moreover from True have "compact_shift v = 0" unfolding cs by simp
      ultimately show ?thesis by simp
    next
      case False
      then have n3: "3 \<le> n" by simp
      have wdiv: "w = v div 2 ^ (8 * (n - 3))"
      proof (cases "n = 3")
        case True
        then show ?thesis using wsmall [of] by simp
      next
        case False
        with n3 have "3 < n" by simp
        then show ?thesis by (rule wbig)
      qed
      from n3 have e: "8 * (n - 3) + 8 = 8 * (n - 2)" by simp
      have "m = v div (2 ^ (8 * (n - 3)) * 2 ^ 8)"
        unfolding m_def wdiv by (rule div_mult2_eq [symmetric])
      also have "2 ^ (8 * (n - 3)) * 2 ^ 8 = (2::nat) ^ (8 * (n - 2))"
        unfolding power_add [symmetric] e ..
      finally have m: "m = v div 2 ^ (8 * (n - 2))" .
      from n3 have "\<not> n + 1 \<le> 3" "n + 1 - 3 = n - 2" by simp_all
      then have "fst (SetCompact (GetCompact v))
          = (v div 2 ^ (8 * (n - 2)) * 2 ^ (8 * (n - 2))) mod 2 ^ 256"
        unfolding d m by (simp only: if_False)
      also have "\<dots> = v div 2 ^ (8 * (n - 2)) * 2 ^ (8 * (n - 2))"
        using v by (rule round_down_mod)
      finally show ?thesis unfolding cs .
    qed
  qed
qed

lemma round_trip_le: "v < 2 ^ 256 \<Longrightarrow> fst (SetCompact (GetCompact v)) \<le> v"
  by (simp only: round_trip_eq div_times_less_eq_dividend)

lemma compact_shift_mono: "u \<le> v \<Longrightarrow> compact_shift u \<le> compact_shift v"
proof -
  assume "u \<le> v"
  then have "bits u \<le> bits v" by (rule bits_mono)
  then have "bits u div 8 - 2 \<le> bits v div 8 - 2"
    by (intro diff_le_mono div_le_mono)
  then show ?thesis unfolding compact_shift_def by simp
qed

lemma shift_step: "(a::nat) div 8 - 2 < b div 8 - 2 \<Longrightarrow> a \<le> 8 * (b div 8) - 1 \<and> 8 * (b div 8) \<le> b
    \<and> 8 * (b div 8 - 2) \<le> 8 * (b div 8) - 1 \<and> 0 < b"
  by arith

lemma round_trip_mono:
  assumes uv: "u \<le> v" and v: "v < 2 ^ 256"
  shows "fst (SetCompact (GetCompact u)) \<le> fst (SetCompact (GetCompact v))"
proof -
  from uv v have u: "u < 2 ^ 256" by simp
  define su where "su = compact_shift u"
  define sv where "sv = compact_shift v"
  have ru: "fst (SetCompact (GetCompact u)) = u div 2 ^ su * 2 ^ su"
    unfolding su_def using u by (rule round_trip_eq)
  have rv: "fst (SetCompact (GetCompact v)) = v div 2 ^ sv * 2 ^ sv"
    unfolding sv_def using v by (rule round_trip_eq)
  have le: "su \<le> sv" unfolding su_def sv_def using uv by (rule compact_shift_mono)
  show ?thesis
  proof (cases "su = sv")
    case True
    have "u div 2 ^ sv \<le> v div 2 ^ sv" using uv by (rule div_le_mono)
    then show ?thesis unfolding ru rv True by (rule mult_le_mono1)
  next
    case False
    with le have "su < sv" by simp
    then have "bits u div 8 - 2 < bits v div 8 - 2"
      unfolding su_def sv_def compact_shift_def by simp
    from shift_step [OF this]
    have a: "bits u \<le> 8 * (bits v div 8) - 1" and b: "8 * (bits v div 8) \<le> bits v"
      and c: "sv \<le> 8 * (bits v div 8) - 1" and p: "0 < bits v"
      unfolding sv_def compact_shift_def by simp_all
    define t where "t = 8 * (bits v div 8) - 1"
    from p have v0: "0 < v" by (cases "v = 0") (simp_all add: bits_0)
    from a have "u < 2 ^ t" unfolding t_def by (simp only: bits_le_iff)
    moreover have "2 ^ t \<le> v"
    proof -
      from b have "t \<le> bits v - 1" unfolding t_def by simp
      then have "(2::nat) ^ t \<le> 2 ^ (bits v - 1)" by (rule power_increasing) simp
      also have "\<dots> \<le> v" using v0 by (rule bits_lower)
      finally show ?thesis .
    qed
    moreover have "2 ^ t \<le> v div 2 ^ sv * 2 ^ sv" if "2 ^ t \<le> v"
    proof -
      from c have "t = (t - sv) + sv" unfolding t_def by simp
      then have e: "(2::nat) ^ t = 2 ^ (t - sv) * 2 ^ sv" by (metis power_add)
      from that have "2 ^ (t - sv) * 2 ^ sv \<le> v" unfolding e .
      then have "2 ^ (t - sv) \<le> v div 2 ^ sv"
        by (simp add: less_eq_div_iff_mult_less_eq)
      then have "2 ^ (t - sv) * 2 ^ sv \<le> v div 2 ^ sv * 2 ^ sv" by (rule mult_le_mono1)
      then show ?thesis unfolding e .
    qed
    moreover have "u div 2 ^ su * 2 ^ su \<le> u" by (rule div_times_less_eq_dividend)
    ultimately show ?thesis unfolding ru rv by linarith
  qed
qed

lemma SetCompact_less: "fst (SetCompact x) < 2 ^ 256"
proof (cases "x div 2 ^ 24 \<le> 3")
  case True
  have "x mod 2 ^ 23 div 2 ^ (8 * (3 - x div 2 ^ 24)) \<le> x mod 2 ^ 23" by (rule div_le_dividend)
  also have "\<dots> < 2 ^ 23" by simp
  also have "\<dots> < (2::nat) ^ 256" by simp
  finally show ?thesis using True by (simp add: SetCompact_def Let_def)
next
  case False
  then show ?thesis by (simp add: SetCompact_def Let_def)
qed

lemma bits_div8: "b \<le> 23 + 8 * k \<Longrightarrow> (b::nat) div 8 - 2 \<le> k"
  by arith

lemma round_trip_decode:
  "fst (SetCompact (GetCompact (fst (SetCompact x)))) = fst (SetCompact x)"
proof -
  define d where "d = fst (SetCompact x)"
  define k where "k = x div 2 ^ 24 - 3"
  have dl: "d < 2 ^ 256" unfolding d_def by (rule SetCompact_less)
  have w: "x mod 2 ^ 23 < (2::nat) ^ 23" by simp
  have dvd: "2 ^ compact_shift d dvd d"
  proof (cases "x div 2 ^ 24 \<le> 3")
    case True
    then have "d = x mod 2 ^ 23 div 2 ^ (8 * (3 - x div 2 ^ 24))"
      by (simp add: d_def SetCompact_def Let_def)
    also have "\<dots> \<le> x mod 2 ^ 23" by (rule div_le_dividend)
    finally have "d < 2 ^ 23" using w by (rule le_less_trans)
    then have "bits d \<le> 23 + 8 * 0" by (simp add: bits_le_iff)
    then have "bits d div 8 - 2 \<le> 0" by (rule bits_div8)
    then have "compact_shift d = 0" by (simp add: compact_shift_def)
    then show ?thesis by simp
  next
    case False
    then have d: "d = (x mod 2 ^ 23 * 2 ^ (8 * k)) mod 2 ^ 256"
      by (simp add: d_def SetCompact_def Let_def k_def)
    have "d \<le> x mod 2 ^ 23 * 2 ^ (8 * k)" unfolding d by (rule mod_less_eq_dividend)
    also have "\<dots> < 2 ^ 23 * 2 ^ (8 * k)" using w by simp
    also have "\<dots> = 2 ^ (23 + 8 * k)" by (simp only: power_add)
    finally have "bits d \<le> 23 + 8 * k" by (simp only: bits_le_iff)
    then have "bits d div 8 - 2 \<le> k" by (rule bits_div8)
    then have c1: "compact_shift d \<le> 8 * k" unfolding compact_shift_def by simp
    from dl have "bits d \<le> 23 + 8 * 30" by (simp add: bits_le_iff)
    then have "bits d div 8 - 2 \<le> 30" by (rule bits_div8)
    then have c2: "compact_shift d \<le> 256" unfolding compact_shift_def by simp
    from c1 have "(2::nat) ^ compact_shift d dvd 2 ^ (8 * k)" by (rule le_imp_power_dvd)
    then have "2 ^ compact_shift d dvd x mod 2 ^ 23 * 2 ^ (8 * k)" by (rule dvd_mult)
    moreover from c2 have "(2::nat) ^ compact_shift d dvd 2 ^ 256" by (rule le_imp_power_dvd)
    ultimately show ?thesis unfolding d by (rule dvd_mod)
  qed
  have "fst (SetCompact (GetCompact d)) = d div 2 ^ compact_shift d * 2 ^ compact_shift d"
    using dl by (rule round_trip_eq)
  also have "\<dots> = d" using dvd by (rule dvd_div_mult_self)
  finally show ?thesis unfolding d_def .
qed

section \<open>Scaling a target by a timespan\<close>

lemma to_int32_id: "int32 x = Some y \<Longrightarrow> to_int32 y = y"
  by (auto simp add: int32_def to_int32_def split: if_splits)

lemma limits_at_height:
  assumes T: "0 < nPowTargetTimespan params" "nPowTargetTimespan params * 4 < 2 ^ 32"
  shows "\<exists>nMin. GetDifficultyLimits height (GetTransitionFactor height) params
             = Some (nMin, nPowTargetTimespan params * 4)
           \<and> 0 \<le> nMin \<and> nMin \<le> nPowTargetTimespan params"
proof -
  from T have a: "0 \<le> nPowTargetTimespan params" "nPowTargetTimespan params * 4 \<le> 2 ^ 53"
    by simp_all
  from GetDifficultyLimits_bounds [OF a, of "GetTransitionFactor height" height]
    GetTransitionFactor_range [of height]
  obtain nMin where n: "GetDifficultyLimits height (GetTransitionFactor height) params
        = Some (nMin, nPowTargetTimespan params * 4)"
      "nPowTargetTimespan params div 16 \<le> nMin" "nMin \<le> nPowTargetTimespan params div 4"
    by auto
  from a(1) have "0 \<le> nPowTargetTimespan params div 16"
    "nPowTargetTimespan params div 4 \<le> nPowTargetTimespan params" by simp_all
  with n show ?thesis by auto
qed

lemma mul_u32_exact:
  "0 \<le> c \<Longrightarrow> c < 2 ^ 32 \<Longrightarrow> a * nat c < 2 ^ 256 \<Longrightarrow> mul_u32 a c = a * nat c"
  by (simp add: mul_u32_def)

lemma div_u64_exact: "0 < t \<Longrightarrow> t < 2 ^ 64 \<Longrightarrow> div_u64 a t = Some (a div nat t)"
  by (simp add: div_u64_def Let_def)

text \<open>Scaling a target by \<open>c / timespan\<close> and clamping it, where nothing wraps.\<close>

lemma scale_exact:
  assumes T: "0 < T" "T * 4 < 2 ^ 32" and c: "0 \<le> c" "c \<le> T * 4"
    and nowrap: "v * nat (T * 4) < 2 ^ 256"
  shows "div_u64 (mul_u32 v c) T = Some (v * nat c div nat T)"
proof -
  from c T have c32: "c < 2 ^ 32" by simp
  from c have "nat c \<le> nat (T * 4)" by simp
  then have "v * nat c \<le> v * nat (T * 4)" by (rule mult_le_mono2)
  with nowrap have "v * nat c < 2 ^ 256" by (rule le_less_trans [rotated])
  with c(1) c32 have "mul_u32 v c = v * nat c" by (rule mul_u32_exact)
  moreover from T have "T < 2 ^ 64" by simp
  ultimately show ?thesis using T(1) by (simp add: div_u64_exact)
qed

lemma scale_mono:
  "0 \<le> c \<Longrightarrow> c \<le> c' \<Longrightarrow> min (v * nat c div nat T) L \<le> min (v * nat c' div nat T) (L::nat)"
proof -
  assume "0 \<le> c" "c \<le> c'"
  then have "nat c \<le> nat c'" by simp
  then have "v * nat c \<le> v * nat c'" by (rule mult_le_mono2)
  then have "v * nat c div nat T \<le> v * nat c' div nat T" by (rule div_le_mono)
  then show ?thesis by (rule min.mono) simp
qed

lemma scale_four: "0 < T \<Longrightarrow> v * nat (T * 4) div nat T = 4 * v"
proof -
  assume T: "0 < T"
  then have n: "nat (T * 4) = nat T * 4" by (simp add: nat_mult_distrib)
  have "v * nat (T * 4) = (4 * v) * nat T" unfolding n by simp
  then have "v * nat (T * 4) div nat T = (4 * v) * nat T div nat T" by (rule arg_cong)
  also have "\<dots> = 4 * v" using T by simp
  finally show ?thesis .
qed

lemma scale_below: "0 < T \<Longrightarrow> c \<le> T \<Longrightarrow> v * nat c div nat T \<le> v"
proof -
  assume T: "0 < T" and "c \<le> T"
  then have "nat c \<le> nat T" by simp
  then have "v * nat c \<le> v * nat T" by (rule mult_le_mono2)
  then have "v * nat c div nat T \<le> v * nat T div nat T" by (rule div_le_mono)
  with T show ?thesis by simp
qed

lemma scale_less:
  assumes T: "0 < T" and c: "c \<le> T * 4" and nowrap: "v * nat (T * 4) < 2 ^ 256"
  shows "min (v * nat c div nat T) L < 2 ^ 256"
proof -
  from c have "nat c \<le> nat (T * 4)" by simp
  then have "v * nat c \<le> v * nat (T * 4)" by (rule mult_le_mono2)
  moreover have "v * nat c div nat T \<le> v * nat c" by (rule div_le_dividend)
  ultimately have "v * nat c div nat T < 2 ^ 256" using nowrap by linarith
  then show ?thesis by (simp add: min_def)
qed

lemma scaled_bound_exact:
  assumes T: "0 < nPowTargetTimespan params" "nPowTargetTimespan params * 4 < 2 ^ 32"
    and c: "0 \<le> c" "c \<le> nPowTargetTimespan params * 4"
    and nowrap: "fst (SetCompact nbits) * nat (nPowTargetTimespan params * 4) < 2 ^ 256"
  shows "scaled_bound params nbits c =
           Some (fst (SetCompact (GetCompact
             (min (fst (SetCompact nbits) * nat c div nat (nPowTargetTimespan params))
                  (powLimit params)))))"
  unfolding scaled_bound_def scale_exact [OF T c nowrap]
  by (simp add: min_def Let_def not_less)

section \<open>The envelope of the transition guard\<close>

text \<open>
  The guard and its scaled bounds in rule form, for evaluating them step by step.
\<close>

lemma scaled_bound_eval:
  assumes "mul_u32 (fst (SetCompact nbits)) ts = a"
    and "div_u64 a (nPowTargetTimespan params) = Some t"
    and "GetCompact (if t > powLimit params then powLimit params else t) = g"
    and "fst (SetCompact g) = m"
  shows "scaled_bound params nbits ts = Some m"
  using assms by (simp add: scaled_bound_def)

lemma permitted_boundary_eval:
  assumes "\<not> fPowAllowMinDifficultyBlocks params"
    and "DifficultyAdjustmentInterval params = Some interval"
    and "rem64 height interval = Some 0"
    and "GetDifficultyLimits (to_int32 height) (GetTransitionFactor (to_int32 height)) params
           = Some (nMin, nMax)"
    and "scaled_bound params old_nbits nMax = Some mx"
    and "scaled_bound params old_nbits nMin = Some mn"
  shows "PermittedDifficultyTransition params height old_nbits new_nbits
           = Some (\<not> mx < fst (SetCompact new_nbits) \<and> \<not> mn > fst (SetCompact new_nbits))"
  using assms by (simp add: PermittedDifficultyTransition_def Let_def)

text \<open>
  On an adjustment height a compact value that decodes to the round trip of the
  previous target scaled by \<open>c / timespan\<close> and clamped, for a \<open>c\<close> between the two
  limits, is inside the envelope of \<open>PermittedDifficultyTransition\<close>.
\<close>

lemma permitted_in_envelope:
  assumes T: "0 < nPowTargetTimespan params" "nPowTargetTimespan params * 4 < 2 ^ 32"
    and nowrap: "fst (SetCompact old_nbits) * nat (nPowTargetTimespan params * 4) < 2 ^ 256"
    and iv: "DifficultyAdjustmentInterval params = Some interval"
    and r: "rem64 height interval = Some 0"
    and lim: "GetDifficultyLimits (to_int32 height) (GetTransitionFactor (to_int32 height)) params
               = Some (nMin, nPowTargetTimespan params * 4)"
    and c: "0 \<le> nMin" "nMin \<le> c" "c \<le> nPowTargetTimespan params * 4"
    and obs: "fst (SetCompact new_nbits) = fst (SetCompact (GetCompact
               (min (fst (SetCompact old_nbits) * nat c div nat (nPowTargetTimespan params))
                    (powLimit params))))"
  shows "PermittedDifficultyTransition params height old_nbits new_nbits = Some True"
proof (cases "fPowAllowMinDifficultyBlocks params")
  case True
  then show ?thesis by (simp add: PermittedDifficultyTransition_def)
next
  case False
  define T where "T = nPowTargetTimespan params"
  define v where "v = fst (SetCompact old_nbits)"
  define L where "L = powLimit params"
  define rt where "rt = (\<lambda>x. fst (SetCompact (GetCompact x)))"
  note T' = T [folded T_def] and nowrap' = nowrap [folded T_def v_def]
  have c0: "0 \<le> c" using c by simp
  have top: "0 \<le> T * 4" "T * 4 \<le> T * 4" using T' by simp_all
  have low: "nMin \<le> T * 4" using c by (simp add: T_def)
  have mx: "scaled_bound params old_nbits (nPowTargetTimespan params * 4)
      = Some (rt (min (v * nat (T * 4) div nat T) L))"
    unfolding T_def v_def L_def rt_def by (rule scaled_bound_exact [OF T _ _ nowrap]) (use T in simp_all)
  have mn: "scaled_bound params old_nbits nMin = Some (rt (min (v * nat nMin div nat T) L))"
    unfolding T_def v_def L_def rt_def
    by (rule scaled_bound_exact [OF T c(1) _ nowrap]) (use low in \<open>simp add: T_def\<close>)
  have o: "fst (SetCompact new_nbits) = rt (min (v * nat c div nat T) L)"
    unfolding T_def v_def L_def rt_def by (rule obs)
  have hi: "rt (min (v * nat c div nat T) L) \<le> rt (min (v * nat (T * 4) div nat T) L)"
    unfolding rt_def
    by (rule round_trip_mono [OF scale_mono [OF c0] scale_less [OF T'(1) _ nowrap']])
      (use c in \<open>simp_all add: T_def\<close>)
  have lo: "rt (min (v * nat nMin div nat T) L) \<le> rt (min (v * nat c div nat T) L)"
    unfolding rt_def
    by (rule round_trip_mono [OF scale_mono [OF c(1) c(2)] scale_less [OF T'(1) _ nowrap']])
      (use c in \<open>simp add: T_def\<close>)
  have "PermittedDifficultyTransition params height old_nbits new_nbits
      = Some (\<not> rt (min (v * nat (T * 4) div nat T) L) < rt (min (v * nat c div nat T) L) \<and>
              \<not> rt (min (v * nat nMin div nat T) L) > rt (min (v * nat c div nat T) L))"
    using permitted_boundary_eval [OF False iv r lim mx mn, of new_nbits] unfolding o .
  then show ?thesis by (simp only: not_less hi lo simp_thms)
qed


lemma decode_fixed:
  assumes T: "0 < T" and le: "fst (SetCompact x) \<le> L"
  shows "fst (SetCompact x) = fst (SetCompact (GetCompact
           (min (fst (SetCompact x) * nat T div nat T) L)))"
proof -
  have "fst (SetCompact x) * nat T div nat T = fst (SetCompact x)" using T by simp
  with le have "min (fst (SetCompact x) * nat T div nat T) L = fst (SetCompact x)" by simp
  then show ?thesis by (simp only: round_trip_decode)
qed

text \<open>The calculator in rule form.\<close>

lemma next_target_eval:
  assumes "int32 (nHeight pindexLast + 1) = Some h"
    and "GetDifficultyLimits h (GetTransitionFactor h) params = Some (nMin, nMax)"
    and "int64 (nTime pindexLast - nFirstBlockTime) = Some actual"
    and "(if actual < nMin then nMin else if actual > nMax then nMax else actual) = c"
    and "mul_u32 (fst (SetCompact (nBits pindexLast))) c = a"
    and "div_u64 a (nPowTargetTimespan params) = Some t"
  shows "next_target pindexLast nFirstBlockTime params
           = Some (if t > powLimit params then powLimit params else t)"
  using assms by (simp add: next_target_def Let_def)

lemmas interval_eval = DifficultyAdjustmentInterval_def era_interval_def div64_def rem64_def
  c_div_def c_rem_def int64_def int32_def to_int32_def

lemmas limits_eval = to_int32_def GetDifficultyLimits_def NEW_RULES_ACTIVATION_HEIGHT_def
  int64_def c_div_def

lemma calculate_eval:
  assumes "\<not> fPowNoRetargeting params"
    and "int32 (nHeight pindexLast + 1) = Some h"
    and "GetDifficultyLimits h (GetTransitionFactor h) params = Some (nMin, nMax)"
    and "int64 (nTime pindexLast - nFirstBlockTime) = Some actual"
    and "(if actual < nMin then nMin else if actual > nMax then nMax else actual) = c"
    and "mul_u32 (fst (SetCompact (nBits pindexLast))) c = a"
    and "div_u64 a (nPowTargetTimespan params) = Some t"
    and "GetCompact (if t > powLimit params then powLimit params else t) = g"
  shows "CalculateNextWorkRequired pindexLast nFirstBlockTime params = Some g"
  using assms(1,8) next_target_eval [OF assms(2-7)]
  by (simp add: CalculateNextWorkRequired_def)

lemma next_target_exact:
  assumes T: "0 < nPowTargetTimespan params" "nPowTargetTimespan params * 4 < 2 ^ 32"
    and h: "int32 (nHeight pindexLast + 1) = Some next_height"
    and lim: "GetDifficultyLimits next_height (GetTransitionFactor next_height) params
               = Some (nMin, nPowTargetTimespan params * 4)"
    and n: "0 \<le> nMin" "nMin \<le> nPowTargetTimespan params"
    and act: "int64 (nTime pindexLast - nFirstBlockTime) = Some nActualTimespan"
    and nowrap: "fst (SetCompact (nBits pindexLast)) * nat (nPowTargetTimespan params * 4) < 2 ^ 256"
    and c: "c = (if nActualTimespan < nMin then nMin
                 else if nActualTimespan > nPowTargetTimespan params * 4
                 then nPowTargetTimespan params * 4 else nActualTimespan)"
  shows "next_target pindexLast nFirstBlockTime params =
           Some (min (fst (SetCompact (nBits pindexLast)) * nat c
                      div nat (nPowTargetTimespan params)) (powLimit params))"
    and "nMin \<le> c" and "c \<le> nPowTargetTimespan params * 4"
proof -
  show lo: "nMin \<le> c" and hi: "c \<le> nPowTargetTimespan params * 4"
    using n T unfolding c by auto
  from n(1) lo have c0: "0 \<le> c" by simp
  have s: "div_u64 (mul_u32 (fst (SetCompact (nBits pindexLast))) c) (nPowTargetTimespan params)
      = Some (fst (SetCompact (nBits pindexLast)) * nat c div nat (nPowTargetTimespan params))"
    by (rule scale_exact [OF T c0 hi nowrap])
  show "next_target pindexLast nFirstBlockTime params =
           Some (min (fst (SetCompact (nBits pindexLast)) * nat c
                      div nat (nPowTargetTimespan params)) (powLimit params))"
  proof -
    have "next_target pindexLast nFirstBlockTime params =
        div_u64 (mul_u32 (fst (SetCompact (nBits pindexLast))) c) (nPowTargetTimespan params)
          \<bind> (\<lambda>bnNew. Some (if bnNew > powLimit params then powLimit params else bnNew))"
      unfolding c
      by (simp add: next_target_def h lim act Let_def split del: if_split cong: if_cong)
    then show ?thesis unfolding s by (simp add: min_def not_less)
  qed
qed

section \<open>The guard on an unchanged target\<close>

text \<open>
  Where the interval and the remainder of the height by it are defined, the guard permits
  a value that decodes without flags to at most the limit to stay as it is.
\<close>

lemma permitted_unchanged:
  assumes "0 < nPowTargetTimespan params" and "nPowTargetTimespan params * 4 < 2 ^ 32"
    and "DifficultyAdjustmentInterval params = Some interval"
    and "rem64 height interval = Some r"
    and "SetCompact x = (v, False, False)"
    and "v \<le> powLimit params"
    and "v * nat (nPowTargetTimespan params * 4) < 2 ^ 256"
  shows "PermittedDifficultyTransition params height x x = Some True"
proof (cases "r = 0")
  case False
  with assms(3,4) show ?thesis by (simp add: PermittedDifficultyTransition_def)
next
  case True
  from assms(5) have v: "fst (SetCompact x) = v" by simp
  from limits_at_height [OF assms(1,2), of "to_int32 height"]
  obtain nMin where n: "GetDifficultyLimits (to_int32 height)
        (GetTransitionFactor (to_int32 height)) params = Some (nMin, nPowTargetTimespan params * 4)"
      "0 \<le> nMin" "nMin \<le> nPowTargetTimespan params"
    by auto
  show ?thesis
  proof (rule permitted_in_envelope [OF assms(1,2) _ assms(3) _ n(1,2,3)])
    show "fst (SetCompact x) * nat (nPowTargetTimespan params * 4) < 2 ^ 256"
      unfolding v by (rule assms(7))
    show "rem64 height interval = Some 0" using assms(4) True by simp
    show "nPowTargetTimespan params \<le> nPowTargetTimespan params * 4" using assms(1) by simp
    show "fst (SetCompact x) = fst (SetCompact (GetCompact
         (min (fst (SetCompact x) * nat (nPowTargetTimespan params)
               div nat (nPowTargetTimespan params)) (powLimit params))))"
      by (rule decode_fixed [OF assms(1)]) (simp add: v assms(6))
  qed
qed

text \<open>
  C10 (amended). For every parameter set with a positive timespan whose fourfold is below
  \<open>2 ^ 32\<close>, a non-zero spacing and a non-zero \<open>DifficultyAdjustmentInterval()\<close>,
  every height other than \<open>INT64_MIN\<close> where that interval is \<open>-1\<close>, and every compact
  value that decodes without flags to a value at most the proof-of-work limit whose
  product with the maximum timespan fits in 256 bits, the guard permits the transition
  from that value to itself.
\<close>

theorem C10_permitted_reflexive:
  assumes "0 < nPowTargetTimespan params" and "nPowTargetTimespan params * 4 < 2 ^ 32"
    and "nPowTargetSpacing params \<noteq> 0"
    and "DifficultyAdjustmentInterval params \<noteq> Some 0"
    and "\<not> (height = - (2 ^ 63) \<and> DifficultyAdjustmentInterval params = Some (- 1))"
    and "SetCompact x = (v, False, False)"
    and "v \<le> powLimit params"
    and "v * nat (nPowTargetTimespan params * 4) < 2 ^ 256"
  shows "PermittedDifficultyTransition params height x x = Some True"
proof -
  from assms(1,3) obtain interval where iv: "DifficultyAdjustmentInterval params = Some interval"
    by (simp add: DifficultyAdjustmentInterval_def div64_def)
  with assms(4,5) have "interval \<noteq> 0" "\<not> (height = - (2 ^ 63) \<and> interval = - 1)"
    by simp_all
  then have "rem64 height interval = Some (c_rem height interval)" by (simp add: rem64_def)
  from permitted_unchanged [OF assms(1,2) iv this assms(6,7,8)] show ?thesis .
qed

theorem C10_permitted_reflexive_witness:
  "0 < nPowTargetTimespan (sample_params False) \<and>
   nPowTargetTimespan (sample_params False) * 4 < 2 ^ 32 \<and>
   nPowTargetSpacing (sample_params False) \<noteq> 0 \<and>
   DifficultyAdjustmentInterval (sample_params False) = Some 1440 \<and>
   SetCompact 486604799 = (65535 * 2 ^ 208, False, False) \<and>
   65535 * 2 ^ 208 \<le> powLimit (sample_params False) \<and>
   65535 * 2 ^ 208 * nat (nPowTargetTimespan (sample_params False) * 4) < 2 ^ 256 \<and>
   PermittedDifficultyTransition (sample_params False) 2880 486604799 486604799 = Some True"
proof -
  have a1: "0 < nPowTargetTimespan (sample_params False)" by simp
  have a2: "nPowTargetTimespan (sample_params False) * 4 < 2 ^ 32" by simp
  have a3: "nPowTargetSpacing (sample_params False) \<noteq> 0" by simp
  have iv: "DifficultyAdjustmentInterval (sample_params False) = Some 1440"
    by (simp add: interval_eval)
  have a4: "DifficultyAdjustmentInterval (sample_params False) \<noteq> Some 0"
    unfolding iv by simp
  have a5: "\<not> (2880 = - (2 ^ 63) \<and>
      DifficultyAdjustmentInterval (sample_params False) = Some (- 1))"
    unfolding iv by simp
  have a6: "SetCompact 486604799 = (65535 * 2 ^ 208, False, False)"
    by (simp add: SetCompact_def)
  have a7: "65535 * 2 ^ 208 \<le> powLimit (sample_params False)" by simp
  have a8: "65535 * 2 ^ 208 * nat (nPowTargetTimespan (sample_params False) * 4) < 2 ^ 256"
    by simp
  note C10_permitted_reflexive [OF a1 a2 a3 a4 a5 a6 a7 a8]
  with a1 a2 a3 iv a6 a7 a8 show ?thesis by blast
qed

lemma self_trunc_perm:
  "PermittedDifficultyTransition (chain_params (2 ^ 236 - 1) 60 (2 ^ 30) False) 0 486604799 486604799 = Some False"
  apply (rule trans [OF permitted_boundary_eval])
        apply simp
       apply (simp add: interval_eval)
      apply (simp add: interval_eval)
     apply (simp add: limits_eval)
    apply (rule scaled_bound_eval)
       apply (simp add: mul_u32_def SetCompact_def)
      apply (simp add: div_u64_def)
     apply (simp add: GetCompact_def bits.simps)
    apply (simp add: SetCompact_def)
   apply (rule scaled_bound_eval)
      apply (simp add: mul_u32_def SetCompact_def)
     apply (simp add: div_u64_def)
    apply (simp add: GetCompact_def bits.simps)
   apply (simp add: SetCompact_def)
  apply (simp add: SetCompact_def)
  done

lemma zero_spacing_perm:
  "PermittedDifficultyTransition (chain_params (2 ^ 236 - 1) 0 86400 False) 0 486604799 486604799 = None"
  by (simp add: PermittedDifficultyTransition_def interval_eval)

lemma zero_interval_perm:
  "DifficultyAdjustmentInterval (chain_params (2 ^ 236 - 1) 86401 86400 False) = Some 0 \<and>
   PermittedDifficultyTransition (chain_params (2 ^ 236 - 1) 86401 86400 False) 0
     486604799 486604799 = None"
  by (simp add: PermittedDifficultyTransition_def interval_eval)

lemma least_height_perm:
  "DifficultyAdjustmentInterval (chain_params (2 ^ 236 - 1) (- 86400) 86400 False) = Some (- 1) \<and>
   PermittedDifficultyTransition (chain_params (2 ^ 236 - 1) (- 86400) 86400 False) (- (2 ^ 63))
     486604799 486604799 = None"
  by (simp add: PermittedDifficultyTransition_def interval_eval)

text \<open>
  The claim with a positive timespan as its only condition on the parameters fails. With
  a timespan of \<open>2 ^ 30\<close> seconds the maximum timespan \<open>2 ^ 32\<close> is zero as the 32-bit
  factor of \<open>operator*=\<close>, the largest permitted target is zero, and the guard rejects
  the unchanged \<open>0x1d00ffff\<close>. With a spacing of zero
  \<open>DifficultyAdjustmentInterval()\<close> divides by zero; with a spacing of 86401 above the
  timespan of 86400 it is zero and the guard takes the height modulo zero; with a spacing
  of -86400 it is -1 and the remainder of the least height by it overflows. In these three
  cases the guard has no result.
\<close>

theorem C10_counterexample:
  "SetCompact 486604799 = (65535 * 2 ^ 208, False, False) \<and>
   (65535::nat) * 2 ^ 208 \<le> 2 ^ 236 - 1 \<and>
   (65535::nat) * 2 ^ 208 * nat (2 ^ 30 * 4) < 2 ^ 256 \<and>
   (65535::nat) * 2 ^ 208 * nat (86400 * 4) < 2 ^ 256 \<and>
   PermittedDifficultyTransition (chain_params (2 ^ 236 - 1) 60 (2 ^ 30) False) 0
     486604799 486604799 = Some False \<and>
   PermittedDifficultyTransition (chain_params (2 ^ 236 - 1) 0 86400 False) 0
     486604799 486604799 = None \<and>
   (DifficultyAdjustmentInterval (chain_params (2 ^ 236 - 1) 86401 86400 False) = Some 0 \<and>
    PermittedDifficultyTransition (chain_params (2 ^ 236 - 1) 86401 86400 False) 0
      486604799 486604799 = None) \<and>
   (DifficultyAdjustmentInterval (chain_params (2 ^ 236 - 1) (- 86400) 86400 False) = Some (- 1) \<and>
    PermittedDifficultyTransition (chain_params (2 ^ 236 - 1) (- 86400) 86400 False) (- (2 ^ 63))
      486604799 486604799 = None)"
proof -
  have "SetCompact 486604799 = (65535 * 2 ^ 208, False, False)"
    by (simp add: SetCompact_def)
  moreover have "(65535::nat) * 2 ^ 208 \<le> 2 ^ 236 - 1" by simp
  moreover have "(65535::nat) * 2 ^ 208 * nat (2 ^ 30 * 4) < 2 ^ 256" by simp
  moreover have "(65535::nat) * 2 ^ 208 * nat (86400 * 4) < 2 ^ 256" by simp
  moreover note self_trunc_perm zero_spacing_perm zero_interval_perm least_height_perm
  ultimately show ?thesis by blast
qed

section \<open>The guard on the calculator's result\<close>

text \<open>
  Where the spacing divides the timespan, every boundary of the orchestrator is a
  multiple of \<open>DifficultyAdjustmentInterval()\<close>, in both eras.
\<close>

lemma era_boundary_interval:
  assumes s: "0 < nPowTargetSpacing params" and T: "0 < nPowTargetTimespan params"
    and T12: "nPowTargetTimespan params * 12 < 2 ^ 63"
    and dvd: "nPowTargetSpacing params dvd nPowTargetTimespan params"
    and era: "era_interval params next_height = Some era"
    and r: "rem64 next_height era = Some 0"
  shows "\<exists>interval. DifficultyAdjustmentInterval params = Some interval \<and>
           rem64 next_height interval = Some 0"
proof -
  define d where "d = nPowTargetTimespan params div nPowTargetSpacing params"
  from dvd obtain k where k: "nPowTargetTimespan params = nPowTargetSpacing params * k" ..
  with s have dk: "d = k" by (simp add: d_def)
  from T k s have "0 < k" by (simp add: zero_less_mult_iff)
  with dk have d: "0 < d" by simp
  have twelve: "nPowTargetTimespan params * 12 div nPowTargetSpacing params = 12 * d"
    using s by (simp add: k dk mult.assoc)
  have iv: "DifficultyAdjustmentInterval params = Some d"
    using s T by (simp add: DifficultyAdjustmentInterval_def div64_def c_div_nonneg d_def)
  have e: "era = d \<or> era = 12 * d"
    using era s T T12 twelve
    by (auto simp add: era_interval_def div64_def int64_def c_div_nonneg d_def split: if_splits)
  then have e0: "0 < era" using d by auto
  from r e0 have "c_rem next_height era = 0" by (simp add: rem64_def)
  then have "era dvd next_height" using e0 by (simp add: c_rem_eq_0_iff mod_eq_0_iff_dvd)
  moreover from e have "d dvd era" by auto
  ultimately have "d dvd next_height" by (rule dvd_trans [rotated])
  then have "c_rem next_height d = 0" using d by (simp add: c_rem_eq_0_iff mod_eq_0_iff_dvd)
  with d have "rem64 next_height d = Some 0" by (simp add: rem64_def)
  with iv show ?thesis by blast
qed

text \<open>
  C1 (amended). For a parameter set with a positive timespan whose fourfold is below
  \<open>2 ^ 32\<close>, on a retarget boundary of the orchestrator that is also a multiple of
  \<open>DifficultyAdjustmentInterval()\<close>, where the previous target times the maximum
  timespan fits in 256 bits and, when retargeting is off, the previous target is at most
  the proof-of-work limit: \<open>CalculateNextWorkRequired\<close> returns a value, and
  \<open>PermittedDifficultyTransition\<close> accepts it.
\<close>

theorem C1_guard_accepts_calculator:
  assumes "0 < nPowTargetTimespan params" and "nPowTargetTimespan params * 4 < 2 ^ 32"
    and "int32 (nHeight pindexLast + 1) = Some next_height"
    and "era_interval params next_height = Some era"
    and "rem64 next_height era = Some 0"
    and "DifficultyAdjustmentInterval params = Some interval"
    and "rem64 next_height interval = Some 0"
    and "int64 (nTime pindexLast - nFirstBlockTime) = Some nActualTimespan"
    and "fst (SetCompact (nBits pindexLast)) * nat (nPowTargetTimespan params * 4) < 2 ^ 256"
    and "fPowNoRetargeting params \<longrightarrow> fst (SetCompact (nBits pindexLast)) \<le> powLimit params"
  shows "\<exists>nBits'. CalculateNextWorkRequired pindexLast nFirstBlockTime params = Some nBits' \<and>
           PermittedDifficultyTransition params next_height (nBits pindexLast) nBits' = Some True"
proof -
  have id: "to_int32 next_height = next_height" using assms(3) by (rule to_int32_id)
  from limits_at_height [OF assms(1,2), of next_height]
  obtain nMin where n: "GetDifficultyLimits next_height (GetTransitionFactor next_height) params
        = Some (nMin, nPowTargetTimespan params * 4)"
      "0 \<le> nMin" "nMin \<le> nPowTargetTimespan params"
    by auto
  have lim: "GetDifficultyLimits (to_int32 next_height)
      (GetTransitionFactor (to_int32 next_height)) params
      = Some (nMin, nPowTargetTimespan params * 4)"
    unfolding id by (rule n(1))
  note env = permitted_in_envelope [OF assms(1,2,9,6,7) lim n(2)]
  show ?thesis
  proof (cases "fPowNoRetargeting params")
    case True
    then have "CalculateNextWorkRequired pindexLast nFirstBlockTime params = Some (nBits pindexLast)"
      by (simp add: CalculateNextWorkRequired_def)
    moreover have "PermittedDifficultyTransition params next_height (nBits pindexLast)
        (nBits pindexLast) = Some True"
    proof (rule env [OF n(3)])
      show "nPowTargetTimespan params \<le> nPowTargetTimespan params * 4" using assms(1) by simp
      show "fst (SetCompact (nBits pindexLast)) = fst (SetCompact (GetCompact
           (min (fst (SetCompact (nBits pindexLast)) * nat (nPowTargetTimespan params)
                 div nat (nPowTargetTimespan params)) (powLimit params))))"
        using True assms(10) by (intro decode_fixed [OF assms(1)]) simp
    qed
    ultimately show ?thesis by simp
  next
    case False
    define c where "c = (if nActualTimespan < nMin then nMin
                 else if nActualTimespan > nPowTargetTimespan params * 4
                 then nPowTargetTimespan params * 4 else nActualTimespan)"
    note nt = next_target_exact [OF assms(1,2,3) n assms(8,9) c_def]
    from False nt(1)
    have "CalculateNextWorkRequired pindexLast nFirstBlockTime params =
        Some (GetCompact (min (fst (SetCompact (nBits pindexLast)) * nat c
                      div nat (nPowTargetTimespan params)) (powLimit params)))"
      by (simp add: CalculateNextWorkRequired_def)
    moreover have "PermittedDifficultyTransition params next_height (nBits pindexLast)
        (GetCompact (min (fst (SetCompact (nBits pindexLast)) * nat c
                      div nat (nPowTargetTimespan params)) (powLimit params))) = Some True"
      by (rule env [OF nt(2,3) refl])
    ultimately show ?thesis by simp
  qed
qed

lemma sample_calc:
  "CalculateNextWorkRequired (CBlockIndex 17279 2036800 486604799 2000000 None) 1000000 (sample_params False) = Some 486801404"
  apply (rule calculate_eval)
         apply simp
        apply (simp add: int32_def)
       apply (simp add: limits_eval)
      apply (simp add: int64_def)
     apply simp
    apply (simp add: mul_u32_def SetCompact_def)
   apply (simp add: div_u64_def)
  apply (simp add: GetCompact_def bits.simps)
  done

theorem C1_guard_accepts_calculator_witness:
  "0 < nPowTargetTimespan (sample_params False) \<and>
   nPowTargetTimespan (sample_params False) * 4 < 2 ^ 32 \<and>
   int32 (nHeight (CBlockIndex 17279 2036800 486604799 2000000 None) + 1) = Some 17280 \<and>
   era_interval (sample_params False) 17280 = Some 17280 \<and>
   rem64 17280 17280 = Some 0 \<and>
   DifficultyAdjustmentInterval (sample_params False) = Some 1440 \<and>
   rem64 17280 1440 = Some 0 \<and>
   int64 (nTime (CBlockIndex 17279 2036800 486604799 2000000 None) - 1000000) = Some 1036800 \<and>
   fst (SetCompact (nBits (CBlockIndex 17279 2036800 486604799 2000000 None))) * nat (nPowTargetTimespan (sample_params False) * 4) < 2 ^ 256 \<and>
   \<not> fPowNoRetargeting (sample_params False) \<and>
   CalculateNextWorkRequired (CBlockIndex 17279 2036800 486604799 2000000 None) 1000000 (sample_params False) = Some 486801404 \<and>
   PermittedDifficultyTransition (sample_params False) 17280 486604799 486801404 = Some True"
proof -
  have a1: "0 < nPowTargetTimespan (sample_params False)" by simp
  have a2: "nPowTargetTimespan (sample_params False) * 4 < 2 ^ 32" by simp
  have a3: "int32 (nHeight (CBlockIndex 17279 2036800 486604799 2000000 None) + 1) = Some 17280" by (simp add: int32_def)
  have a4: "era_interval (sample_params False) 17280 = Some 17280" by (simp add: interval_eval)
  have a5: "rem64 17280 17280 = Some 0" by (simp add: interval_eval)
  have a6: "DifficultyAdjustmentInterval (sample_params False) = Some 1440" by (simp add: interval_eval)
  have a7: "rem64 17280 1440 = Some 0" by (simp add: interval_eval)
  have a8: "int64 (nTime (CBlockIndex 17279 2036800 486604799 2000000 None) - 1000000) = Some 1036800" by (simp add: int64_def)
  have a9: "fst (SetCompact (nBits (CBlockIndex 17279 2036800 486604799 2000000 None))) * nat (nPowTargetTimespan (sample_params False) * 4) < 2 ^ 256"
    by (simp add: SetCompact_def)
  have n: "\<not> fPowNoRetargeting (sample_params False)" by simp
  then have a10: "fPowNoRetargeting (sample_params False) \<longrightarrow>
      fst (SetCompact (nBits (CBlockIndex 17279 2036800 486604799 2000000 None))) \<le> powLimit (sample_params False)"
    by blast
  from C1_guard_accepts_calculator [OF a1 a2 a3 a4 a5 a6 a7 a8 a9 a10]
  obtain nb where nb: "CalculateNextWorkRequired (CBlockIndex 17279 2036800 486604799 2000000 None) 1000000 (sample_params False) = Some nb"
    "PermittedDifficultyTransition (sample_params False) 17280 (nBits (CBlockIndex 17279 2036800 486604799 2000000 None)) nb = Some True"
    by blast
  from nb(1) have v: "nb = 486801404" unfolding sample_calc by simp
  have o: "nBits (CBlockIndex 17279 2036800 486604799 2000000 None) = 486604799" by simp
  from nb(2) have p: "PermittedDifficultyTransition (sample_params False) 17280 486604799 486801404 = Some True"
    unfolding v o .
  from a1 a2 a3 a4 a5 a6 a7 a8 a9 n sample_calc p show ?thesis by blast
qed

lemma uneven_calc:
  "CalculateNextWorkRequired (CBlockIndex 39 1000040 486604799 1000000 None) 1000000 (chain_params (2 ^ 236 - 1) 3 10 False) = Some 486801404"
  apply (rule calculate_eval)
         apply simp
        apply (simp add: int32_def)
       apply (simp add: limits_eval)
      apply (simp add: int64_def)
     apply simp
    apply (simp add: mul_u32_def SetCompact_def)
   apply (simp add: div_u64_def)
  apply (simp add: GetCompact_def bits.simps)
  done

lemma uneven_perm: "PermittedDifficultyTransition (chain_params (2 ^ 236 - 1) 3 10 False) 40 486604799 486801404 = Some False"
  by (simp add: PermittedDifficultyTransition_def interval_eval)

lemma uneven_era: "era_interval (chain_params (2 ^ 236 - 1) 3 10 False) 40 = Some 40 \<and> rem64 40 40 = Some 0"
  by (simp add: interval_eval)

lemma wrap_calc:
  "CalculateNextWorkRequired (CBlockIndex 47 1000002 545259519 1000000 None) 1000000 (chain_params (2 ^ 256 - 1) 1 4 False) = Some 541065215"
  apply (rule calculate_eval)
         apply simp
        apply (simp add: int32_def)
       apply (simp add: limits_eval)
      apply (simp add: int64_def)
     apply simp
    apply (simp add: mul_u32_def SetCompact_def)
   apply (simp add: div_u64_def)
  apply (simp add: GetCompact_def bits.simps)
  done

lemma wrap_perm:
  "PermittedDifficultyTransition (chain_params (2 ^ 256 - 1) 1 4 False) 48 545259519 541065215 = Some False"
  apply (rule trans [OF permitted_boundary_eval])
        apply simp
       apply (simp add: interval_eval)
      apply (simp add: interval_eval)
     apply (simp add: limits_eval)
    apply (rule scaled_bound_eval)
       apply (simp add: mul_u32_def SetCompact_def)
      apply (simp add: div_u64_def)
     apply (simp add: GetCompact_def bits.simps)
    apply (simp add: SetCompact_def)
   apply (rule scaled_bound_eval)
      apply (simp add: mul_u32_def SetCompact_def)
     apply (simp add: div_u64_def)
    apply (simp add: GetCompact_def bits.simps)
   apply (simp add: SetCompact_def)
  apply (simp add: SetCompact_def)
  done

lemma wrap_era: "era_interval (chain_params (2 ^ 256 - 1) 1 4 False) 48 = Some 48 \<and> rem64 48 48 = Some 0"
  by (simp add: interval_eval)

lemma trunc_calc:
  "CalculateNextWorkRequired (CBlockIndex 12287 (2 ^ 30) 486604799 0 None) 0 (chain_params (2 ^ 236 - 1) (2 ^ 20) (2 ^ 30) False) = Some 486604799"
  apply (rule calculate_eval)
         apply simp
        apply (simp add: int32_def)
       apply (simp add: limits_eval)
      apply (simp add: int64_def)
     apply simp
    apply (simp add: mul_u32_def SetCompact_def)
   apply (simp add: div_u64_def)
  apply (simp add: GetCompact_def bits.simps)
  done

lemma trunc_perm:
  "PermittedDifficultyTransition (chain_params (2 ^ 236 - 1) (2 ^ 20) (2 ^ 30) False) 12288 486604799 486604799 = Some False"
  apply (rule trans [OF permitted_boundary_eval])
        apply simp
       apply (simp add: interval_eval)
      apply (simp add: interval_eval)
     apply (simp add: limits_eval)
    apply (rule scaled_bound_eval)
       apply (simp add: mul_u32_def SetCompact_def)
      apply (simp add: div_u64_def)
     apply (simp add: GetCompact_def bits.simps)
    apply (simp add: SetCompact_def)
   apply (rule scaled_bound_eval)
      apply (simp add: mul_u32_def SetCompact_def)
     apply (simp add: div_u64_def)
    apply (simp add: GetCompact_def bits.simps)
   apply (simp add: SetCompact_def)
  apply (simp add: SetCompact_def)
  done

lemma trunc_era: "era_interval (chain_params (2 ^ 236 - 1) (2 ^ 20) (2 ^ 30) False) 12288 = Some 12288 \<and> rem64 12288 12288 = Some 0"
  by (simp add: interval_eval)

lemma frozen_calc: "CalculateNextWorkRequired (CBlockIndex 17279 1000000 486604799 0 None) 0 (chain_params (2 ^ 200) 60 86400 True) = Some 486604799"
  by (simp add: CalculateNextWorkRequired_def)

lemma frozen_perm:
  "PermittedDifficultyTransition (chain_params (2 ^ 200) 60 86400 True) 17280 486604799 486604799 = Some False"
  apply (rule trans [OF permitted_boundary_eval])
        apply simp
       apply (simp add: interval_eval)
      apply (simp add: interval_eval)
     apply (simp add: limits_eval)
    apply (rule scaled_bound_eval)
       apply (simp add: mul_u32_def SetCompact_def)
      apply (simp add: div_u64_def)
     apply (simp add: GetCompact_def bits.simps)
    apply (simp add: SetCompact_def)
   apply (rule scaled_bound_eval)
      apply (simp add: mul_u32_def SetCompact_def)
     apply (simp add: div_u64_def)
    apply (simp add: GetCompact_def bits.simps)
   apply (simp add: SetCompact_def)
  apply (simp add: SetCompact_def)
  done

lemma frozen_era: "era_interval (chain_params (2 ^ 200) 60 86400 True) 17280 = Some 17280 \<and> rem64 17280 17280 = Some 0"
  by (simp add: interval_eval)

lemma negative_calc:
  "CalculateNextWorkRequired (CBlockIndex 49151 1000 486604799 0 None) 1000 (chain_params (2 ^ 236 - 1) (- 16) (- 65536) False) = Some 419495931"
  apply (rule calculate_eval)
         apply simp
        apply (simp add: int32_def)
       apply (simp add: limits_eval)
      apply (simp add: int64_def)
     apply simp
    apply (simp add: mul_u32_def SetCompact_def)
   apply (simp add: div_u64_def)
  apply (simp add: GetCompact_def bits.simps)
  done

lemma negative_perm:
  "PermittedDifficultyTransition (chain_params (2 ^ 236 - 1) (- 16) (- 65536) False) 49152 486604799 419495931 = Some False"
  apply (rule trans [OF permitted_boundary_eval])
        apply simp
       apply (simp add: interval_eval)
      apply (simp add: interval_eval)
     apply (simp add: limits_eval)
    apply (rule scaled_bound_eval)
       apply (simp add: mul_u32_def SetCompact_def)
      apply (simp add: div_u64_def)
     apply (simp add: GetCompact_def bits.simps)
    apply (simp add: SetCompact_def)
   apply (rule scaled_bound_eval)
      apply (simp add: mul_u32_def SetCompact_def)
     apply (simp add: div_u64_def)
    apply (simp add: GetCompact_def bits.simps)
   apply (simp add: SetCompact_def)
  apply (simp add: SetCompact_def)
  done

lemma negative_era: "era_interval (chain_params (2 ^ 236 - 1) (- 16) (- 65536) False) 49152 = Some 49152 \<and> rem64 49152 49152 = Some 0"
  by (simp add: interval_eval)

text \<open>
  The claim fails for parameter sets and chain states outside the ones of the amended
  statement; on each of the five inputs the height is a boundary of the orchestrator
  and the guard rejects what the calculator returns.
  \<^item> Spacing 3 and timespan 10: height 40 is a multiple of the orchestrator's interval
    \<open>120 / 3\<close> and not of \<open>DifficultyAdjustmentInterval() = 3\<close>, so the guard demands
    an unchanged value, and the calculator changes it.
  \<^item> Limit \<open>2 ^ 256 - 1\<close> and previous target \<open>0x207fffff\<close>: the product with the
    maximum timespan wraps around \<open>2 ^ 256\<close> in the guard.
  \<^item> Timespan \<open>2 ^ 30\<close>: the maximum timespan \<open>2 ^ 32\<close> is zero as a 32-bit factor.
  \<^item> No retargeting and a previous target above the limit: the calculator returns the
    previous value, the guard clamps to the limit.
  \<^item> A negative timespan: the two limits change places.
\<close>

theorem C1_counterexample:
  "(era_interval (chain_params (2 ^ 236 - 1) 3 10 False) 40 = Some 40 \<and> rem64 40 40 = Some 0) \<and>
   CalculateNextWorkRequired (CBlockIndex 39 1000040 486604799 1000000 None) 1000000 (chain_params (2 ^ 236 - 1) 3 10 False) = Some 486801404 \<and>
   PermittedDifficultyTransition (chain_params (2 ^ 236 - 1) 3 10 False) 40 486604799 486801404 = Some False \<and>
   (era_interval (chain_params (2 ^ 256 - 1) 1 4 False) 48 = Some 48 \<and> rem64 48 48 = Some 0) \<and>
   CalculateNextWorkRequired (CBlockIndex 47 1000002 545259519 1000000 None) 1000000 (chain_params (2 ^ 256 - 1) 1 4 False) = Some 541065215 \<and>
   PermittedDifficultyTransition (chain_params (2 ^ 256 - 1) 1 4 False) 48 545259519 541065215 = Some False \<and>
   (era_interval (chain_params (2 ^ 236 - 1) (2 ^ 20) (2 ^ 30) False) 12288 = Some 12288 \<and> rem64 12288 12288 = Some 0) \<and>
   CalculateNextWorkRequired (CBlockIndex 12287 (2 ^ 30) 486604799 0 None) 0 (chain_params (2 ^ 236 - 1) (2 ^ 20) (2 ^ 30) False) = Some 486604799 \<and>
   PermittedDifficultyTransition (chain_params (2 ^ 236 - 1) (2 ^ 20) (2 ^ 30) False) 12288 486604799 486604799 = Some False \<and>
   (era_interval (chain_params (2 ^ 200) 60 86400 True) 17280 = Some 17280 \<and> rem64 17280 17280 = Some 0) \<and>
   CalculateNextWorkRequired (CBlockIndex 17279 1000000 486604799 0 None) 0 (chain_params (2 ^ 200) 60 86400 True) = Some 486604799 \<and>
   PermittedDifficultyTransition (chain_params (2 ^ 200) 60 86400 True) 17280 486604799 486604799 = Some False \<and>
   (era_interval (chain_params (2 ^ 236 - 1) (- 16) (- 65536) False) 49152 = Some 49152 \<and> rem64 49152 49152 = Some 0) \<and>
   CalculateNextWorkRequired (CBlockIndex 49151 1000 486604799 0 None) 1000 (chain_params (2 ^ 236 - 1) (- 16) (- 65536) False) = Some 419495931 \<and>
   PermittedDifficultyTransition (chain_params (2 ^ 236 - 1) (- 16) (- 65536) False) 49152 486604799 419495931 = Some False"
  using uneven_era uneven_calc uneven_perm wrap_era wrap_calc wrap_perm trunc_era trunc_calc trunc_perm frozen_era frozen_calc frozen_perm negative_era negative_calc negative_perm
  by blast

section \<open>The clamp to the proof-of-work limit\<close>

text \<open>
  With a positive timespan whose fourfold is below \<open>2 ^ 32\<close> the calculator returns the
  compact form of a value at most the limit; that value is the limit when the previous
  target is the limit, nothing wraps and the actual timespan is ten timespans.
\<close>

lemma calculator_scaled:
  assumes "\<not> fPowNoRetargeting params"
    and "0 < nPowTargetTimespan params" and "nPowTargetTimespan params * 4 < 2 ^ 32"
    and "int32 (nHeight pindexLast + 1) = Some next_height"
    and "int64 (nTime pindexLast - nFirstBlockTime) = Some nActualTimespan"
  shows "\<exists>bnNew. next_target pindexLast nFirstBlockTime params = Some bnNew \<and>
           bnNew \<le> powLimit params \<and>
           CalculateNextWorkRequired pindexLast nFirstBlockTime params
             = Some (GetCompact bnNew) \<and>
           (fst (SetCompact (nBits pindexLast)) = powLimit params \<and>
            powLimit params * nat (nPowTargetTimespan params * 4) < 2 ^ 256 \<and>
            nActualTimespan = nPowTargetTimespan params * 10 \<longrightarrow> bnNew = powLimit params)"
proof -
  note T = assms(2,3)
  from limits_at_height [OF T, of next_height]
  obtain nMin where n: "GetDifficultyLimits next_height (GetTransitionFactor next_height) params
        = Some (nMin, nPowTargetTimespan params * 4)"
      "0 \<le> nMin" "nMin \<le> nPowTargetTimespan params"
    by auto
  define c where "c = (if nActualTimespan < nMin then nMin
                 else if nActualTimespan > nPowTargetTimespan params * 4
                 then nPowTargetTimespan params * 4 else nActualTimespan)"
  define a where "a = mul_u32 (fst (SetCompact (nBits pindexLast))) c"
  define t where "t = a div nat (nPowTargetTimespan params)"
  define b where "b = (if t > powLimit params then powLimit params else t)"
  from T have "nPowTargetTimespan params < 2 ^ 64" by simp
  with T(1) have d: "div_u64 a (nPowTargetTimespan params) = Some t"
    unfolding t_def by (rule div_u64_exact)
  have nt: "next_target pindexLast nFirstBlockTime params = Some b"
    unfolding b_def
    by (rule next_target_eval [OF assms(4) n(1) assms(5) c_def [symmetric] a_def [symmetric] d])
  have le: "b \<le> powLimit params" by (simp add: b_def)
  from assms(1) nt
  have calc: "CalculateNextWorkRequired pindexLast nFirstBlockTime params = Some (GetCompact b)"
    by (simp add: CalculateNextWorkRequired_def)
  have part: "fst (SetCompact (nBits pindexLast)) = powLimit params \<and>
      powLimit params * nat (nPowTargetTimespan params * 4) < 2 ^ 256 \<and>
      nActualTimespan = nPowTargetTimespan params * 10 \<longrightarrow> b = powLimit params"
  proof
    assume h: "fst (SetCompact (nBits pindexLast)) = powLimit params \<and>
      powLimit params * nat (nPowTargetTimespan params * 4) < 2 ^ 256 \<and>
      nActualTimespan = nPowTargetTimespan params * 10"
    then have c4: "c = nPowTargetTimespan params * 4" using T n by (simp add: c_def)
    from T(1) have "0 \<le> nPowTargetTimespan params * 4" by simp
    from mul_u32_exact [OF this T(2)] h
    have "a = powLimit params * nat (nPowTargetTimespan params * 4)"
      unfolding a_def c4 by simp
    then have "t = 4 * powLimit params" unfolding t_def by (simp only: scale_four [OF T(1)])
    then show "b = powLimit params" by (simp add: b_def)
  qed
  from nt le calc part show ?thesis by blast
qed

lemma limits_defined:
  assumes T: "0 < nPowTargetTimespan params" "nPowTargetTimespan params * 4 < 2 ^ 63 - 512"
  shows "\<exists>nMin nMax. GetDifficultyLimits height (GetTransitionFactor height) params
           = Some (nMin, nMax)"
proof -
  from T(1) have T0: "0 \<le> nPowTargetTimespan params" by simp
  note f = GetTransitionFactor_range [of height, THEN conjunct1]
    GetTransitionFactor_range [of height, THEN conjunct2]
  show ?thesis
  proof (cases "height < NEW_RULES_ACTIVATION_HEIGHT")
    case True
    from T(2) have "nPowTargetTimespan params * 4 < 2 ^ 63" by simp
    from GetDifficultyLimits_legacy [OF T0 this True] show ?thesis by blast
  next
    case False
    show ?thesis
    proof (cases "nPowTargetTimespan params * 4 \<le> 2 ^ 53")
      case True
      from GetDifficultyLimits_bounds [OF T0 True f] show ?thesis by blast
    next
      case big: False
      then have "2 ^ 53 < nPowTargetTimespan params * 4" by simp
      from GetDifficultyLimits_big [OF this T(2) f False] show ?thesis by blast
    qed
  qed
qed

lemma next_target_returns:
  assumes T: "0 < nPowTargetTimespan params" "nPowTargetTimespan params * 4 < 2 ^ 63 - 512"
    and h: "int32 (nHeight pindexLast + 1) = Some next_height"
    and act: "int64 (nTime pindexLast - nFirstBlockTime) = Some nActualTimespan"
  shows "\<exists>b. next_target pindexLast nFirstBlockTime params = Some b"
proof -
  from limits_defined [OF T, of next_height] obtain nMin nMax
    where lim: "GetDifficultyLimits next_height (GetTransitionFactor next_height) params
      = Some (nMin, nMax)"
    by blast
  from T have "nPowTargetTimespan params < 2 ^ 64" by simp
  from div_u64_exact [OF T(1) this]
  have d: "\<And>a. div_u64 a (nPowTargetTimespan params)
      = Some (a div nat (nPowTargetTimespan params))" .
  from next_target_eval [OF h lim act refl refl d] show ?thesis by blast
qed

text \<open>
  C5 (amended). With retargeting enabled \<open>CalculateNextWorkRequired\<close> returns, whenever
  it returns, the compact form of a 256-bit value that is at most the proof-of-work limit.
  It returns at least for every positive timespan whose fourfold is below \<open>2 ^ 63 - 512\<close>,
  where the next height fits \<open>int\<close> and the actual timespan \<open>int64_t\<close>. When the
  previous target decodes to the limit, the timespan is positive with a fourfold below
  \<open>2 ^ 32\<close>, the limit times the maximum timespan fits in 256 bits and the actual
  timespan is ten times the timespan, the result is the compact form of the limit.
\<close>

theorem C5_clamped_to_limit:
  "(\<not> fPowNoRetargeting params \<longrightarrow>
      CalculateNextWorkRequired pindexLast nFirstBlockTime params
        = map_option GetCompact (next_target pindexLast nFirstBlockTime params)) \<and>
   (next_target pindexLast nFirstBlockTime params = Some bnNew \<longrightarrow> bnNew \<le> powLimit params) \<and>
   (0 < nPowTargetTimespan params \<and> nPowTargetTimespan params * 4 < 2 ^ 63 - 512 \<and>
    int32 (nHeight pindexLast + 1) = Some next_height \<and>
    int64 (nTime pindexLast - nFirstBlockTime) = Some nActualTimespan \<longrightarrow>
      (\<exists>b. next_target pindexLast nFirstBlockTime params = Some b)) \<and>
   (\<not> fPowNoRetargeting params \<and> 0 < nPowTargetTimespan params \<and>
    nPowTargetTimespan params * 4 < 2 ^ 32 \<and>
    int32 (nHeight pindexLast + 1) = Some next_height \<and>
    fst (SetCompact (nBits pindexLast)) = powLimit params \<and>
    powLimit params * nat (nPowTargetTimespan params * 4) < 2 ^ 256 \<and>
    nTime pindexLast - nFirstBlockTime = nPowTargetTimespan params * 10 \<longrightarrow>
      CalculateNextWorkRequired pindexLast nFirstBlockTime params
        = Some (GetCompact (powLimit params)))"
proof (intro conjI impI)
  assume "\<not> fPowNoRetargeting params"
  then show "CalculateNextWorkRequired pindexLast nFirstBlockTime params
        = map_option GetCompact (next_target pindexLast nFirstBlockTime params)"
    by (cases "next_target pindexLast nFirstBlockTime params")
      (simp_all add: CalculateNextWorkRequired_def)
next
  assume "next_target pindexLast nFirstBlockTime params = Some bnNew"
  then show "bnNew \<le> powLimit params"
    by (auto simp add: next_target_def Let_def split: bind_splits if_splits)
next
  assume "0 < nPowTargetTimespan params \<and> nPowTargetTimespan params * 4 < 2 ^ 63 - 512 \<and>
    int32 (nHeight pindexLast + 1) = Some next_height \<and>
    int64 (nTime pindexLast - nFirstBlockTime) = Some nActualTimespan"
  then show "\<exists>b. next_target pindexLast nFirstBlockTime params = Some b"
    by (intro next_target_returns) simp_all
next
  assume a: "\<not> fPowNoRetargeting params \<and> 0 < nPowTargetTimespan params \<and>
    nPowTargetTimespan params * 4 < 2 ^ 32 \<and>
    int32 (nHeight pindexLast + 1) = Some next_height \<and>
    fst (SetCompact (nBits pindexLast)) = powLimit params \<and>
    powLimit params * nat (nPowTargetTimespan params * 4) < 2 ^ 256 \<and>
    nTime pindexLast - nFirstBlockTime = nPowTargetTimespan params * 10"
  then have n: "\<not> fPowNoRetargeting params"
    and T: "0 < nPowTargetTimespan params" "nPowTargetTimespan params * 4 < 2 ^ 32"
    and h: "int32 (nHeight pindexLast + 1) = Some next_height"
    and v: "fst (SetCompact (nBits pindexLast)) = powLimit params"
      "powLimit params * nat (nPowTargetTimespan params * 4) < 2 ^ 256"
    and ten: "nTime pindexLast - nFirstBlockTime = nPowTargetTimespan params * 10"
    by simp_all
  have act: "int64 (nTime pindexLast - nFirstBlockTime) = Some (nPowTargetTimespan params * 10)"
    unfolding ten using T by (simp add: int64_def)
  from calculator_scaled [OF n T h act] v
  show "CalculateNextWorkRequired pindexLast nFirstBlockTime params
        = Some (GetCompact (powLimit params))"
    by auto
qed

lemma limit_sample:
  "next_target (CBlockIndex 1 864000 504365055 0 None) 0 (chain_params (1048575 * 2 ^ 216) 60 86400 False) = Some (1048575 * 2 ^ 216)"
  apply (rule trans [OF next_target_eval])
        apply (simp add: int32_def)
       apply (simp add: limits_eval)
      apply (simp add: int64_def)
     apply simp
    apply (simp add: mul_u32_def SetCompact_def)
   apply (simp add: div_u64_def)
  apply simp
  done

lemma limit_wrap_calc:
  "CalculateNextWorkRequired (CBlockIndex 1 864000 545259519 0 None) 0 (chain_params (8388607 * 2 ^ 232) 60 86400 False) = Some 520142382"
  apply (rule calculate_eval)
         apply simp
        apply (simp add: int32_def)
       apply (simp add: limits_eval)
      apply (simp add: int64_def)
     apply simp
    apply (simp add: mul_u32_def SetCompact_def)
   apply (simp add: div_u64_def)
  apply (simp add: GetCompact_def bits.simps)
  done

lemma limit_trunc_calc:
  "CalculateNextWorkRequired (CBlockIndex 1 0 504365055 0 None) (- (10 * 2 ^ 30))
     (chain_params (1048575 * 2 ^ 216) 60 (2 ^ 30) False) = Some 0"
  apply (rule calculate_eval)
         apply simp
        apply (simp add: int32_def)
       apply (simp add: limits_eval)
      apply (simp add: int64_def)
     apply simp
    apply (simp add: mul_u32_def SetCompact_def)
   apply (simp add: div_u64_def)
  apply (simp add: GetCompact_def bits.simps)
  done

lemma limit_negative_calc:
  "CalculateNextWorkRequired (CBlockIndex 1 0 504365055 0 None) 655360
     (chain_params (1048575 * 2 ^ 216) 60 (- 65536) False) = Some 419494656"
  apply (rule calculate_eval)
         apply simp
        apply (simp add: int32_def)
       apply (simp add: limits_eval)
      apply (simp add: int64_def)
     apply simp
    apply (simp add: mul_u32_def SetCompact_def)
   apply (simp add: div_u64_def)
  apply (simp add: GetCompact_def bits.simps)
  done

lemma limit_zero_calc:
  "CalculateNextWorkRequired (CBlockIndex 1 0 504365055 0 None) 0
     (chain_params (1048575 * 2 ^ 216) 60 0 False) = None"
  by (simp add: CalculateNextWorkRequired_def next_target_def int32_def int64_def limits_eval
      div_u64_def Let_def)

lemma limit_compact: "GetCompact (8388607 * 2 ^ 232) = 545259519 \<and> GetCompact (1048575 * 2 ^ 216) = 504365055
    \<and> SetCompact 545259519 = (8388607 * 2 ^ 232, False, False)
    \<and> SetCompact 504365055 = (1048575 * 2 ^ 216, False, False)"
  by (simp add: GetCompact_def SetCompact_def bits.simps)

theorem C5_clamped_to_limit_witness:
  "\<not> fPowNoRetargeting (chain_params (1048575 * 2 ^ 216) 60 86400 False) \<and>
   0 < nPowTargetTimespan (chain_params (1048575 * 2 ^ 216) 60 86400 False) \<and>
   nPowTargetTimespan (chain_params (1048575 * 2 ^ 216) 60 86400 False) * 4 < 2 ^ 32 \<and>
   int32 (nHeight (CBlockIndex 1 864000 504365055 0 None) + 1) = Some 2 \<and>
   int64 (nTime (CBlockIndex 1 864000 504365055 0 None) - 0) = Some 864000 \<and>
   fst (SetCompact (nBits (CBlockIndex 1 864000 504365055 0 None))) = powLimit (chain_params (1048575 * 2 ^ 216) 60 86400 False) \<and>
   powLimit (chain_params (1048575 * 2 ^ 216) 60 86400 False) * nat (nPowTargetTimespan (chain_params (1048575 * 2 ^ 216) 60 86400 False) * 4) < 2 ^ 256 \<and>
   nTime (CBlockIndex 1 864000 504365055 0 None) - 0 = nPowTargetTimespan (chain_params (1048575 * 2 ^ 216) 60 86400 False) * 10 \<and>
   next_target (CBlockIndex 1 864000 504365055 0 None) 0 (chain_params (1048575 * 2 ^ 216) 60 86400 False) = Some (1048575 * 2 ^ 216) \<and>
   1048575 * 2 ^ 216 \<le> powLimit (chain_params (1048575 * 2 ^ 216) 60 86400 False) \<and>
   CalculateNextWorkRequired (CBlockIndex 1 864000 504365055 0 None) 0 (chain_params (1048575 * 2 ^ 216) 60 86400 False) = Some 504365055"
proof -
  have a1: "\<not> fPowNoRetargeting (chain_params (1048575 * 2 ^ 216) 60 86400 False)" by simp
  have a2: "0 < nPowTargetTimespan (chain_params (1048575 * 2 ^ 216) 60 86400 False)" by simp
  have a3: "nPowTargetTimespan (chain_params (1048575 * 2 ^ 216) 60 86400 False) * 4 < 2 ^ 32" by simp
  have a4: "int32 (nHeight (CBlockIndex 1 864000 504365055 0 None) + 1) = Some 2" by (simp add: int32_def)
  have a5: "int64 (nTime (CBlockIndex 1 864000 504365055 0 None) - 0) = Some 864000" by (simp add: int64_def)
  have a6: "fst (SetCompact (nBits (CBlockIndex 1 864000 504365055 0 None))) = powLimit (chain_params (1048575 * 2 ^ 216) 60 86400 False)" by (simp add: SetCompact_def)
  have a7: "powLimit (chain_params (1048575 * 2 ^ 216) 60 86400 False) * nat (nPowTargetTimespan (chain_params (1048575 * 2 ^ 216) 60 86400 False) * 4) < 2 ^ 256" by simp
  have a8: "nTime (CBlockIndex 1 864000 504365055 0 None) - 0 = nPowTargetTimespan (chain_params (1048575 * 2 ^ 216) 60 86400 False) * 10" by simp
  note t = C5_clamped_to_limit [where params = "chain_params (1048575 * 2 ^ 216) 60 86400 False"
      and pindexLast = "CBlockIndex 1 864000 504365055 0 None" and nFirstBlockTime = 0
      and bnNew = "1048575 * 2 ^ 216" and next_height = 2 and nActualTimespan = 864000]
  from t limit_sample have le: "1048575 * 2 ^ 216 \<le> powLimit (chain_params (1048575 * 2 ^ 216) 60 86400 False)" by blast
  from t a1 a2 a3 a4 a6 a7 a8
  have "CalculateNextWorkRequired (CBlockIndex 1 864000 504365055 0 None) 0 (chain_params (1048575 * 2 ^ 216) 60 86400 False) = Some (GetCompact (powLimit (chain_params (1048575 * 2 ^ 216) 60 86400 False)))"
    by blast
  moreover have "GetCompact (powLimit (chain_params (1048575 * 2 ^ 216) 60 86400 False)) = 504365055"
    using limit_compact by simp
  ultimately have c: "CalculateNextWorkRequired (CBlockIndex 1 864000 504365055 0 None) 0 (chain_params (1048575 * 2 ^ 216) 60 86400 False) = Some 504365055"
    by (simp only:)
  from a1 a2 a3 a4 a5 a6 a7 a8 limit_sample le c show ?thesis by blast
qed

text \<open>
  The second part of the claim fails where the scaling leaves 256 or 32 bits, and for a
  timespan that is not positive. With the limit \<open>0x7fffff\<close> followed by 232 zero bits
  and a timespan of 86400 seconds the product of the limit and the maximum timespan wraps
  around \<open>2 ^ 256\<close>, and the result is \<open>0x1f00be2e\<close>, not the compact limit
  \<open>0x207fffff\<close>. With a timespan of \<open>2 ^ 30\<close> seconds the maximum timespan is zero as
  a 32-bit factor, and the result is 0. With a timespan of -65536 seconds the result is
  \<open>0x1900fb00\<close>, and with a timespan of zero the division has no result.
\<close>

theorem C5_counterexample:
  "(GetCompact (8388607 * 2 ^ 232) = 545259519 \<and>
    GetCompact (1048575 * 2 ^ 216) = 504365055 \<and>
    SetCompact 545259519 = (8388607 * 2 ^ 232, False, False) \<and>
    SetCompact 504365055 = (1048575 * 2 ^ 216, False, False)) \<and>
   CalculateNextWorkRequired (CBlockIndex 1 864000 545259519 0 None) 0
     (chain_params (8388607 * 2 ^ 232) 60 86400 False) = Some 520142382 \<and>
   CalculateNextWorkRequired (CBlockIndex 1 0 504365055 0 None) (- (10 * 2 ^ 30))
     (chain_params (1048575 * 2 ^ 216) 60 (2 ^ 30) False) = Some 0 \<and>
   CalculateNextWorkRequired (CBlockIndex 1 0 504365055 0 None) 655360
     (chain_params (1048575 * 2 ^ 216) 60 (- 65536) False) = Some 419494656 \<and>
   CalculateNextWorkRequired (CBlockIndex 1 0 504365055 0 None) 0
     (chain_params (1048575 * 2 ^ 216) 60 0 False) = None"
  using limit_compact limit_wrap_calc limit_trunc_calc limit_negative_calc limit_zero_calc
  by blast

end
